theory Spec2Isabelle
  imports Complex_Main "HOL-Library.Word" "HOL-Library.Log_Nat"
begin



section \<open>The TeX-like box model of internal/latex/tex/tex.go\<close>

text \<open>
  This theory embeds the box model of \<^verbatim>\<open>internal/latex/tex/tex.go\<close>: the node kinds,
  \<^verbatim>\<open>Shrink\<close>/\<^verbatim>\<open>Grow\<close>, the kerning pass, \<^verbatim>\<open>hpack\<close>, \<^verbatim>\<open>vpack\<close> and \<^verbatim>\<open>NewGlue\<close>.

  Conventions of the embedding.
  \<^item> A Go \<^verbatim>\<open>float64\<close> is a value of \<open>float64\<close> below: a real number, one of the two
    infinities, or NaN. A product of two finite values is rounded as binary64 rounds
    it (to the nearest value of 53 significant bits, ties to even, gradual underflow,
    overflow to infinity), and so are the two scaling constants. Sums and differences
    of finite values are exact, and the sign of zero is not modelled. The special
    cases of IEEE arithmetic on infinities and NaN, and those of \<^verbatim>\<open>math.Max\<close>, are
    modelled.
  \<^item> The \<^verbatim>\<open>size\<close> counter is a Go \<^verbatim>\<open>int\<close>, taken as a 64-bit word read as two's
    complement; \<^verbatim>\<open>size--\<close> and \<^verbatim>\<open>size++\<close> wrap around.
  \<^item> The glue orders are Go \<^verbatim>\<open>int\<close>s on which no arithmetic is done; they are
    \<open>int\<close>s here, and indexing a totals slice with an order outside of its bounds
    panics, as it does in Go.
  \<^item> A panic is a value: a function that can panic returns \<open>panic + 'a\<close>. \<^verbatim>\<open>hpack\<close> and
    \<^verbatim>\<open>vpack\<close> assign fields of their receiver before they reach the glue-setting
    step, so they return the receiver as the call leaves it together with the panic,
    if any.
  \<^item> A node is a tree: every composite owns its children, and a child is either
    the nil interface value or a non-nil pointer to one of the node types of the
    package. The render backend of a \<^verbatim>\<open>Rule\<close> is not modelled.
\<close>

subsection \<open>float64\<close>

datatype float64 = Fin real | PInf | NInf | NaN

definition fzero :: float64 where
  "fzero = Fin 0"

fun IsInf :: "float64 \<Rightarrow> bool" where
  "IsInf PInf = True"
| "IsInf NInf = True"
| "IsInf _ = False"

fun IsNaN :: "float64 \<Rightarrow> bool" where
  "IsNaN NaN = True"
| "IsNaN _ = False"

fun fneg :: "float64 \<Rightarrow> float64" where
  "fneg (Fin a) = Fin (- a)"
| "fneg PInf = NInf"
| "fneg NInf = PInf"
| "fneg NaN = NaN"

fun fadd :: "float64 \<Rightarrow> float64 \<Rightarrow> float64" where
  "fadd NaN _ = NaN"
| "fadd _ NaN = NaN"
| "fadd PInf NInf = NaN"
| "fadd NInf PInf = NaN"
| "fadd PInf _ = PInf"
| "fadd _ PInf = PInf"
| "fadd NInf _ = NInf"
| "fadd _ NInf = NInf"
| "fadd (Fin a) (Fin b) = Fin (a + b)"

definition fsub :: "float64 \<Rightarrow> float64 \<Rightarrow> float64" where
  "fsub a b = fadd a (fneg b)"

text \<open>The sign of a value, for the product with an infinity: 0 for zero and NaN.\<close>

fun fsgn :: "float64 \<Rightarrow> int" where
  "fsgn (Fin a) = (if a < 0 then -1 else if a = 0 then 0 else 1)"
| "fsgn PInf = 1"
| "fsgn NInf = -1"
| "fsgn NaN = 0"

text \<open>
  Rounding to binary64. \<open>round_even\<close> is the nearest integer, the even one of two that
  are equally near. \<open>ilog2 x\<close> is, for \<open>x > 0\<close>, the exponent \<open>e\<close> with
  \<open>2\<^sup>e \<le> x < 2\<^sup>e\<^sup>+\<^sup>1\<close>. \<open>round64\<close> rounds to a multiple of \<open>2\<^sup>e\<^sup>-\<^sup>5\<^sup>2\<close>, where the exponent
  is held at \<open>-1022\<close> for the subnormal values, and gives an infinity when the rounded
  value reaches \<open>2\<^sup>1\<^sup>0\<^sup>2\<^sup>4\<close>.
\<close>

definition round_even :: "real \<Rightarrow> int" where
  "round_even x =
     (let f = \<lfloor>x\<rfloor>; r = x - of_int f in
      if r < 1 / 2 then f
      else if 1 / 2 < r then f + 1
      else if even f then f else f + 1)"

definition ilog2 :: "real \<Rightarrow> int" where
  "ilog2 x =
     (if 1 \<le> x then int (floorlog 2 (nat \<lfloor>x\<rfloor>)) - 1
      else - int (floorlog 2 (nat (\<lceil>1 / x\<rceil> - 1))))"

definition round64 :: "real \<Rightarrow> float64" where
  "round64 x =
     (if x = 0 then Fin 0
      else
        (let e = max (ilog2 \<bar>x\<bar>) (- 1022);
             q = 2 powi (e - 52);
             r = of_int (round_even (x / q)) * q
         in if 2 powi 1024 \<le> \<bar>r\<bar> then (if 0 < x then PInf else NInf) else Fin r))"

fun fmul :: "float64 \<Rightarrow> float64 \<Rightarrow> float64" where
  "fmul (Fin a) (Fin b) = round64 (a * b)"
| "fmul a b =
     (if IsNaN a \<or> IsNaN b \<or> fsgn a = 0 \<or> fsgn b = 0 then NaN
      else if fsgn a = fsgn b then PInf else NInf)"

text \<open>The comparisons \<^verbatim>\<open>==\<close>, \<^verbatim>\<open>!=\<close> and \<^verbatim>\<open>>\<close>: every comparison with NaN is false,
  except \<^verbatim>\<open>!=\<close>, which is true.\<close>

fun feq :: "float64 \<Rightarrow> float64 \<Rightarrow> bool" where
  "feq (Fin a) (Fin b) = (a = b)"
| "feq PInf PInf = True"
| "feq NInf NInf = True"
| "feq _ _ = False"

definition fne :: "float64 \<Rightarrow> float64 \<Rightarrow> bool" where
  "fne a b = (\<not> feq a b)"

fun fgt :: "float64 \<Rightarrow> float64 \<Rightarrow> bool" where
  "fgt NaN _ = False"
| "fgt _ NaN = False"
| "fgt (Fin a) (Fin b) = (a > b)"
| "fgt PInf PInf = False"
| "fgt PInf _ = True"
| "fgt _ PInf = False"
| "fgt NInf _ = False"
| "fgt _ NInf = True"

text \<open>\<^verbatim>\<open>math.Max\<close>: +Inf if either argument is +Inf, else NaN if either is NaN, else
  the larger.\<close>

definition fmax :: "float64 \<Rightarrow> float64 \<Rightarrow> float64" where
  "fmax x y =
     (if x = PInf \<or> y = PInf then PInf
      else if IsNaN x \<or> IsNaN y then NaN
      else if fgt x y then x else y)"

subsection \<open>Constants\<close>

text \<open>The constant expressions \<^verbatim>\<open>0.7\<close> and \<^verbatim>\<open>1.0 / SHRINK_FACTOR\<close> are exact; each becomes
  a \<^verbatim>\<open>float64\<close>, and is rounded, where it multiplies a field.\<close>

definition SHRINK_FACTOR :: float64 where
  "SHRINK_FACTOR = round64 (7 / 10)"

definition GROW_FACTOR :: float64 where
  "GROW_FACTOR = round64 (1 / (7 / 10))"

definition NUM_SIZE_LEVELS :: "64 word" where
  "NUM_SIZE_LEVELS = 6"

subsection \<open>Panics\<close>

datatype panic =
    NotImplemented
  | CharInVList
  | AccentInVList
  | FIXME
  | UnknownNodeType
  | UnknownGlueSpec string
  | IndexOutOfRange
  | NilDereference

subsection \<open>Node types\<close>

record Box =
  box_size :: "64 word"
  box_width :: float64
  box_height :: float64
  box_depth :: float64

record VBox =
  vbox_size :: "64 word"
  vbox_height :: float64
  vbox_depth :: float64

record HBox =
  hbox_size :: "64 word"
  hbox_width :: float64

record Char =
  char_c :: "32 word"
  char_size :: "64 word"
  char_width :: float64
  char_height :: float64
  char_depth :: float64
  char_font_size :: float64
  char_dpi :: float64
  char_math :: bool

record Glue =
  glue_size :: "64 word"
  glue_width :: float64
  glue_stretch :: float64
  glue_stretchOrder :: int
  glue_shrink :: float64
  glue_shrinkOrder :: int

record Kern =
  kern_size :: "64 word"
  kern_width :: float64

text \<open>The \<^verbatim>\<open>glue\<close> struct of a \<^verbatim>\<open>List\<close>.\<close>

record GlueSetting =
  glue_set :: float64
  glue_sign :: int
  glue_order :: int
  glue_ratio :: float64

text \<open>
  The implementations of the \<^verbatim>\<open>Node\<close> interface. \<^verbatim>\<open>HList\<close>, \<^verbatim>\<open>VList\<close> and
  \<^verbatim>\<open>SubSuperCluster\<close> wrap a \<^verbatim>\<open>List\<close>; \<^verbatim>\<open>Rule\<close>, \<^verbatim>\<open>HRule\<close> and \<^verbatim>\<open>VRule\<close> wrap a \<^verbatim>\<open>Box\<close>;
  \<^verbatim>\<open>Accent\<close> wraps a \<^verbatim>\<open>Char\<close>. \<open>NilNode\<close> is the nil interface value.
\<close>

datatype node =
    NilNode
  | BoxNode Box
  | VBoxNode VBox
  | HBoxNode HBox
  | CharNode Char
  | AccentNode Char
  | ListNode TList
  | HListNode TList
  | VListNode TList
  | RuleNode Box
  | HRuleNode Box
  | VRuleNode Box
  | GlueNode Glue
  | KernNode Kern
  | SubSuperClusterNode TList
and TList =
    TList (box: Box) (shift: float64) (children: "node list") (glue: GlueSetting)

subsection \<open>Shrink and Grow\<close>

definition Box_Shrink :: "Box \<Rightarrow> Box" where
  "Box_Shrink b =
     (let b1 = b\<lparr>box_size := box_size b - 1\<rparr> in
      if NUM_SIZE_LEVELS \<le>s box_size b1 then b1
      else b1\<lparr>box_width := fmul (box_width b1) SHRINK_FACTOR,
              box_height := fmul (box_height b1) SHRINK_FACTOR,
              box_depth := fmul (box_depth b1) SHRINK_FACTOR\<rparr>)"

definition Box_Grow :: "Box \<Rightarrow> Box" where
  "Box_Grow b =
     b\<lparr>box_size := box_size b + 1,
       box_width := fmul (box_width b) GROW_FACTOR,
       box_height := fmul (box_height b) GROW_FACTOR,
       box_depth := fmul (box_depth b) GROW_FACTOR\<rparr>"

definition VBox_Shrink :: "VBox \<Rightarrow> VBox" where
  "VBox_Shrink b =
     (let b1 = b\<lparr>vbox_size := vbox_size b - 1\<rparr> in
      if NUM_SIZE_LEVELS \<le>s vbox_size b1 then b1
      else b1\<lparr>vbox_height := fmul (vbox_height b1) SHRINK_FACTOR,
              vbox_depth := fmul (vbox_depth b1) SHRINK_FACTOR\<rparr>)"

definition VBox_Grow :: "VBox \<Rightarrow> VBox" where
  "VBox_Grow b =
     b\<lparr>vbox_size := vbox_size b + 1,
       vbox_height := fmul (vbox_height b) GROW_FACTOR,
       vbox_depth := fmul (vbox_depth b) GROW_FACTOR\<rparr>"

definition HBox_Shrink :: "HBox \<Rightarrow> HBox" where
  "HBox_Shrink b =
     (let b1 = b\<lparr>hbox_size := hbox_size b - 1\<rparr> in
      if NUM_SIZE_LEVELS \<le>s hbox_size b1 then b1
      else b1\<lparr>hbox_width := fmul (hbox_width b1) SHRINK_FACTOR\<rparr>)"

definition HBox_Grow :: "HBox \<Rightarrow> HBox" where
  "HBox_Grow b =
     b\<lparr>hbox_size := hbox_size b + 1,
       hbox_width := fmul (hbox_width b) GROW_FACTOR\<rparr>"

definition Char_Shrink :: "Char \<Rightarrow> Char" where
  "Char_Shrink b =
     (let b1 = b\<lparr>char_size := char_size b - 1\<rparr> in
      if NUM_SIZE_LEVELS \<le>s char_size b1 then b1
      else b1\<lparr>char_font_size := fmul (char_font_size b1) SHRINK_FACTOR,
              char_width := fmul (char_width b1) SHRINK_FACTOR,
              char_height := fmul (char_height b1) SHRINK_FACTOR,
              char_depth := fmul (char_depth b1) SHRINK_FACTOR\<rparr>)"

definition Char_Grow :: "Char \<Rightarrow> Char" where
  "Char_Grow b =
     b\<lparr>char_size := char_size b + 1,
       char_font_size := fmul (char_font_size b) GROW_FACTOR,
       char_width := fmul (char_width b) GROW_FACTOR,
       char_height := fmul (char_height b) GROW_FACTOR,
       char_depth := fmul (char_depth b) GROW_FACTOR\<rparr>"

definition Glue_Shrink :: "Glue \<Rightarrow> Glue" where
  "Glue_Shrink g =
     (let g1 = g\<lparr>glue_size := glue_size g - 1\<rparr> in
      if NUM_SIZE_LEVELS \<le>s glue_size g1 then g1
      else g1\<lparr>glue_width := fmul (glue_width g1) SHRINK_FACTOR\<rparr>)"

definition Glue_Grow :: "Glue \<Rightarrow> Glue" where
  "Glue_Grow g =
     g\<lparr>glue_size := glue_size g + 1,
       glue_width := fmul (glue_width g) GROW_FACTOR\<rparr>"

definition Kern_Shrink :: "Kern \<Rightarrow> Kern" where
  "Kern_Shrink k =
     (let k1 = k\<lparr>kern_size := kern_size k - 1\<rparr> in
      if NUM_SIZE_LEVELS \<le>s kern_size k1 then k1
      else k1\<lparr>kern_width := fmul (kern_width k1) SHRINK_FACTOR\<rparr>)"

definition Kern_Grow :: "Kern \<Rightarrow> Kern" where
  "Kern_Grow k =
     k\<lparr>kern_size := kern_size k + 1,
       kern_width := fmul (kern_width k) GROW_FACTOR\<rparr>"

text \<open>\<^verbatim>\<open>Accent.updateMetrics\<close> panics, so \<^verbatim>\<open>Accent.Shrink\<close> and \<^verbatim>\<open>Accent.Grow\<close> panic
  once the character has been scaled.\<close>

definition Accent_updateMetrics :: "Char \<Rightarrow> panic + Char" where
  "Accent_updateMetrics c = Inl NotImplemented"

text \<open>
  \<^verbatim>\<open>List.Shrink\<close> shrinks the children in order, then its box, then the shift and the
  glue set amount if the decremented size is below \<^verbatim>\<open>NUM_SIZE_LEVELS\<close>. \<open>Shrink_all\<close> is
  the loop over the children: it stops at the first child that panics.
\<close>

fun Shrink :: "node \<Rightarrow> panic + node"
  and List_Shrink :: "TList \<Rightarrow> panic + TList"
  and Shrink_all :: "node list \<Rightarrow> panic + node list" where
  "Shrink NilNode = Inl NilDereference"
| "Shrink (BoxNode b) = Inr (BoxNode (Box_Shrink b))"
| "Shrink (VBoxNode b) = Inr (VBoxNode (VBox_Shrink b))"
| "Shrink (HBoxNode b) = Inr (HBoxNode (HBox_Shrink b))"
| "Shrink (CharNode c) = Inr (CharNode (Char_Shrink c))"
| "Shrink (AccentNode c) =
     (case Accent_updateMetrics (Char_Shrink c) of Inl e \<Rightarrow> Inl e | Inr c' \<Rightarrow> Inr (AccentNode c'))"
| "Shrink (ListNode l) =
     (case List_Shrink l of Inl e \<Rightarrow> Inl e | Inr l' \<Rightarrow> Inr (ListNode l'))"
| "Shrink (HListNode l) =
     (case List_Shrink l of Inl e \<Rightarrow> Inl e | Inr l' \<Rightarrow> Inr (HListNode l'))"
| "Shrink (VListNode l) =
     (case List_Shrink l of Inl e \<Rightarrow> Inl e | Inr l' \<Rightarrow> Inr (VListNode l'))"
| "Shrink (RuleNode b) = Inr (RuleNode (Box_Shrink b))"
| "Shrink (HRuleNode b) = Inr (HRuleNode (Box_Shrink b))"
| "Shrink (VRuleNode b) = Inr (VRuleNode (Box_Shrink b))"
| "Shrink (GlueNode g) = Inr (GlueNode (Glue_Shrink g))"
| "Shrink (KernNode k) = Inr (KernNode (Kern_Shrink k))"
| "Shrink (SubSuperClusterNode l) =
     (case List_Shrink l of Inl e \<Rightarrow> Inl e | Inr l' \<Rightarrow> Inr (SubSuperClusterNode l'))"
| "List_Shrink (TList b s cs g) =
     (case Shrink_all cs of
        Inl e \<Rightarrow> Inl e
      | Inr cs' \<Rightarrow>
          (let b' = Box_Shrink b in
           if box_size b' <s NUM_SIZE_LEVELS
           then Inr (TList b' (fmul s SHRINK_FACTOR) cs'
                       (g\<lparr>glue_set := fmul (glue_set g) SHRINK_FACTOR\<rparr>))
           else Inr (TList b' s cs' g)))"
| "Shrink_all [] = Inr []"
| "Shrink_all (c # cs) =
     (case Shrink c of
        Inl e \<Rightarrow> Inl e
      | Inr c' \<Rightarrow> (case Shrink_all cs of Inl e \<Rightarrow> Inl e | Inr cs' \<Rightarrow> Inr (c' # cs')))"

fun Grow :: "node \<Rightarrow> panic + node"
  and List_Grow :: "TList \<Rightarrow> panic + TList"
  and Grow_all :: "node list \<Rightarrow> panic + node list" where
  "Grow NilNode = Inl NilDereference"
| "Grow (BoxNode b) = Inr (BoxNode (Box_Grow b))"
| "Grow (VBoxNode b) = Inr (VBoxNode (VBox_Grow b))"
| "Grow (HBoxNode b) = Inr (HBoxNode (HBox_Grow b))"
| "Grow (CharNode c) = Inr (CharNode (Char_Grow c))"
| "Grow (AccentNode c) =
     (case Accent_updateMetrics (Char_Grow c) of Inl e \<Rightarrow> Inl e | Inr c' \<Rightarrow> Inr (AccentNode c'))"
| "Grow (ListNode l) =
     (case List_Grow l of Inl e \<Rightarrow> Inl e | Inr l' \<Rightarrow> Inr (ListNode l'))"
| "Grow (HListNode l) =
     (case List_Grow l of Inl e \<Rightarrow> Inl e | Inr l' \<Rightarrow> Inr (HListNode l'))"
| "Grow (VListNode l) =
     (case List_Grow l of Inl e \<Rightarrow> Inl e | Inr l' \<Rightarrow> Inr (VListNode l'))"
| "Grow (RuleNode b) = Inr (RuleNode (Box_Grow b))"
| "Grow (HRuleNode b) = Inr (HRuleNode (Box_Grow b))"
| "Grow (VRuleNode b) = Inr (VRuleNode (Box_Grow b))"
| "Grow (GlueNode g) = Inr (GlueNode (Glue_Grow g))"
| "Grow (KernNode k) = Inr (KernNode (Kern_Grow k))"
| "Grow (SubSuperClusterNode l) =
     (case List_Grow l of Inl e \<Rightarrow> Inl e | Inr l' \<Rightarrow> Inr (SubSuperClusterNode l'))"
| "List_Grow (TList b s cs g) =
     (case Grow_all cs of
        Inl e \<Rightarrow> Inl e
      | Inr cs' \<Rightarrow>
          Inr (TList (Box_Grow b) (fmul s GROW_FACTOR) cs'
                 (g\<lparr>glue_set := fmul (glue_set g) GROW_FACTOR\<rparr>)))"
| "Grow_all [] = Inr []"
| "Grow_all (c # cs) =
     (case Grow c of
        Inl e \<Rightarrow> Inl e
      | Inr c' \<Rightarrow> (case Grow_all cs of Inl e \<Rightarrow> Inl e | Inr cs' \<Rightarrow> Inr (c' # cs')))"

text \<open>\<^verbatim>\<open>n.Shrink(); n.Grow()\<close>.\<close>

definition Shrink_Grow :: "node \<Rightarrow> panic + node" where
  "Shrink_Grow n = (case Shrink n of Inl e \<Rightarrow> Inl e | Inr n' \<Rightarrow> Grow n')"

subsection \<open>Kerning\<close>

text \<open>\<^verbatim>\<open>Kerning\<close> is 0 for every node type but \<^verbatim>\<open>Char\<close> and \<^verbatim>\<open>Accent\<close>, whose method
  panics with "not implemented". A method call on the nil interface value panics.\<close>

fun Kerning :: "node \<Rightarrow> node \<Rightarrow> panic + float64" where
  "Kerning NilNode nxt = Inl NilDereference"
| "Kerning (CharNode c) nxt = Inl NotImplemented"
| "Kerning (AccentNode c) nxt = Inl NotImplemented"
| "Kerning _ nxt = Inr (Fin 0)"

definition NewKern :: "float64 \<Rightarrow> Kern" where
  "NewKern w = \<lparr>kern_size = 0, kern_width = w\<rparr>"

text \<open>
  The loop of \<^verbatim>\<open>HList.kern\<close>. The call \<^verbatim>\<open>elem.Kerning(next)\<close> is a call through the
  \<^verbatim>\<open>Node\<close> interface; \<open>kern_loop\<close> takes the method as the parameter \<open>K\<close>, and \<open>kern\<close>
  below is its instance at the methods of the package. For the last child no
  kerning is asked and \<^verbatim>\<open>dist\<close> (here \<open>dst\<close>) keeps its zero value.
\<close>

fun kern_loop :: "(node \<Rightarrow> node \<Rightarrow> panic + float64) \<Rightarrow> node list \<Rightarrow> panic + node list" where
  "kern_loop K [] = Inr []"
| "kern_loop K [elem] = Inr [elem]"
| "kern_loop K (elem # nxt # rest) =
     (case K elem nxt of
        Inl e \<Rightarrow> Inl e
      | Inr dst \<Rightarrow>
          (case kern_loop K (nxt # rest) of
             Inl e \<Rightarrow> Inl e
           | Inr r \<Rightarrow>
               Inr (if fne dst (Fin 0) then elem # KernNode (NewKern dst) # r
                    else elem # r)))"

definition kern_with :: "(node \<Rightarrow> node \<Rightarrow> panic + float64) \<Rightarrow> TList \<Rightarrow> panic + TList" where
  "kern_with K lst =
     (if length (children lst) = 0 then Inr lst
      else (case kern_loop K (children lst) of
              Inl e \<Rightarrow> Inl e
            | Inr cs \<Rightarrow> Inr (TList (box lst) (shift lst) cs (glue lst))))"


subsection \<open>The contributions of the nodes to a pack\<close>

text \<open>The five accumulators that \<^verbatim>\<open>hpackDims\<close> and \<^verbatim>\<open>vpackDims\<close> update through their
  pointer and slice arguments.\<close>

record dims =
  d_width :: float64
  d_height :: float64
  d_depth :: float64
  d_stretch :: "float64 list"
  d_shrink :: "float64 list"

text \<open>\<^verbatim>\<open>totals[order] += v\<close>, with the bounds check of the slice.\<close>

definition add_total :: "float64 list \<Rightarrow> int \<Rightarrow> float64 \<Rightarrow> panic + float64 list" where
  "add_total totals ord v =
     (if 0 \<le> ord \<and> nat ord < length totals
      then Inr (totals[nat ord := fadd (totals ! nat ord) v])
      else Inl IndexOutOfRange)"

definition Box_hpackDims :: "Box \<Rightarrow> dims \<Rightarrow> dims" where
  "Box_hpackDims b a =
     (let a1 = a\<lparr>d_width := fadd (d_width a) (box_width b)\<rparr> in
      if IsInf (box_height b) \<or> IsInf (box_depth b) then a1
      else a1\<lparr>d_height := fmax (d_height a1) (box_height b),
              d_depth := fmax (d_depth a1) (box_depth b)\<rparr>)"

definition Box_vpackDims :: "Box \<Rightarrow> dims \<Rightarrow> dims" where
  "Box_vpackDims b a =
     (let a1 = a\<lparr>d_height := fadd (d_height a) (fadd (d_depth a) (box_height b)),
                 d_depth := box_depth b\<rparr> in
      if IsInf (box_width b) then a1
      else a1\<lparr>d_width := fmax (d_width a1) (box_width b)\<rparr>)"

definition VBox_hpackDims :: "VBox \<Rightarrow> dims \<Rightarrow> dims" where
  "VBox_hpackDims b a =
     (if IsInf (vbox_height b) \<or> IsInf (vbox_depth b) then a
      else a\<lparr>d_height := fmax (d_height a) (vbox_height b),
             d_depth := fmax (d_depth a) (vbox_depth b)\<rparr>)"

definition VBox_vpackDims :: "VBox \<Rightarrow> dims \<Rightarrow> dims" where
  "VBox_vpackDims b a =
     a\<lparr>d_height := fadd (d_height a) (fadd (d_depth a) (vbox_height b)),
       d_depth := vbox_depth b,
       d_width := fmax (d_width a) (Fin 0)\<rparr>"

definition HBox_hpackDims :: "HBox \<Rightarrow> dims \<Rightarrow> dims" where
  "HBox_hpackDims b a = a\<lparr>d_width := fadd (d_width a) (hbox_width b)\<rparr>"

definition HBox_vpackDims :: "HBox \<Rightarrow> dims \<Rightarrow> dims" where
  "HBox_vpackDims b a =
     (let a1 = a\<lparr>d_height := fadd (d_height a) (d_depth a), d_depth := Fin 0\<rparr> in
      if IsInf (hbox_width b) then a1
      else a1\<lparr>d_width := fmax (d_width a1) (hbox_width b)\<rparr>)"

definition Char_hpackDims :: "Char \<Rightarrow> dims \<Rightarrow> dims" where
  "Char_hpackDims c a =
     a\<lparr>d_width := fadd (d_width a) (char_width c),
       d_height := fmax (d_height a) (char_height c),
       d_depth := fmax (d_depth a) (char_depth c)\<rparr>"

definition List_hpackDims :: "TList \<Rightarrow> dims \<Rightarrow> dims" where
  "List_hpackDims lst a =
     (let a1 = a\<lparr>d_width := fadd (d_width a) (box_width (box lst))\<rparr> in
      if IsInf (box_height (box lst)) \<or> IsInf (box_depth (box lst)) then a1
      else a1\<lparr>d_height := fmax (d_height a1) (fsub (box_height (box lst)) (shift lst)),
              d_depth := fmax (d_depth a1) (fadd (box_depth (box lst)) (shift lst))\<rparr>)"

definition List_vpackDims :: "TList \<Rightarrow> dims \<Rightarrow> dims" where
  "List_vpackDims lst a =
     (let a1 = a\<lparr>d_height := fadd (d_height a) (fadd (d_depth a) (box_height (box lst))),
                 d_depth := box_depth (box lst)\<rparr> in
      if IsInf (box_width (box lst)) then a1
      else a1\<lparr>d_width := fmax (d_width a1) (box_width (box lst))\<rparr>)"

definition Glue_hpackDims :: "Glue \<Rightarrow> dims \<Rightarrow> panic + dims" where
  "Glue_hpackDims g a =
     (let a1 = a\<lparr>d_width := fadd (d_width a) (glue_width g)\<rparr> in
      case add_total (d_stretch a1) (glue_stretchOrder g) (glue_stretch g) of
        Inl e \<Rightarrow> Inl e
      | Inr st \<Rightarrow>
          (case add_total (d_shrink a1) (glue_shrinkOrder g) (glue_shrink g) of
             Inl e \<Rightarrow> Inl e
           | Inr sh \<Rightarrow> Inr (a1\<lparr>d_stretch := st, d_shrink := sh\<rparr>)))"

definition Glue_vpackDims :: "Glue \<Rightarrow> dims \<Rightarrow> panic + dims" where
  "Glue_vpackDims g a =
     (let a1 = a\<lparr>d_height := fadd (d_height a) (d_depth a)\<rparr>;
          a2 = a1\<lparr>d_depth := Fin 0\<rparr>;
          a3 = a2\<lparr>d_height := fadd (d_height a2) (glue_width g)\<rparr> in
      case add_total (d_stretch a3) (glue_stretchOrder g) (glue_stretch g) of
        Inl e \<Rightarrow> Inl e
      | Inr st \<Rightarrow>
          (case add_total (d_shrink a3) (glue_shrinkOrder g) (glue_shrink g) of
             Inl e \<Rightarrow> Inl e
           | Inr sh \<Rightarrow> Inr (a3\<lparr>d_stretch := st, d_shrink := sh\<rparr>)))"

definition Kern_hpackDims :: "Kern \<Rightarrow> dims \<Rightarrow> dims" where
  "Kern_hpackDims k a = a\<lparr>d_width := fadd (d_width a) (kern_width k)\<rparr>"

definition Kern_vpackDims :: "Kern \<Rightarrow> dims \<Rightarrow> dims" where
  "Kern_vpackDims k a =
     a\<lparr>d_height := fadd (d_height a) (fadd (d_depth a) (kern_width k)),
       d_depth := Fin 0\<rparr>"

text \<open>The method \<^verbatim>\<open>hpackDims\<close> of each node type; the wrappers delegate.\<close>

fun hpackDims :: "node \<Rightarrow> dims \<Rightarrow> panic + dims" where
  "hpackDims NilNode a = Inl NilDereference"
| "hpackDims (BoxNode b) a = Inr (Box_hpackDims b a)"
| "hpackDims (VBoxNode b) a = Inr (VBox_hpackDims b a)"
| "hpackDims (HBoxNode b) a = Inr (HBox_hpackDims b a)"
| "hpackDims (CharNode c) a = Inr (Char_hpackDims c a)"
| "hpackDims (AccentNode c) a = Inr (Char_hpackDims c a)"
| "hpackDims (ListNode l) a = Inr (List_hpackDims l a)"
| "hpackDims (HListNode l) a = Inr (List_hpackDims l a)"
| "hpackDims (VListNode l) a = Inr (List_hpackDims l a)"
| "hpackDims (RuleNode b) a = Inr (Box_hpackDims b a)"
| "hpackDims (HRuleNode b) a = Inr (Box_hpackDims b a)"
| "hpackDims (VRuleNode b) a = Inr (Box_hpackDims b a)"
| "hpackDims (GlueNode g) a = Glue_hpackDims g a"
| "hpackDims (KernNode k) a = Inr (Kern_hpackDims k a)"
| "hpackDims (SubSuperClusterNode l) a = Inr (List_hpackDims l a)"

text \<open>The method \<^verbatim>\<open>vpackDims\<close> of each node type: \<^verbatim>\<open>Char\<close> and \<^verbatim>\<open>Accent\<close> panic.\<close>

fun vpackDims :: "node \<Rightarrow> dims \<Rightarrow> panic + dims" where
  "vpackDims NilNode a = Inl NilDereference"
| "vpackDims (BoxNode b) a = Inr (Box_vpackDims b a)"
| "vpackDims (VBoxNode b) a = Inr (VBox_vpackDims b a)"
| "vpackDims (HBoxNode b) a = Inr (HBox_vpackDims b a)"
| "vpackDims (CharNode c) a = Inl CharInVList"
| "vpackDims (AccentNode c) a = Inl AccentInVList"
| "vpackDims (ListNode l) a = Inr (List_vpackDims l a)"
| "vpackDims (HListNode l) a = Inr (List_vpackDims l a)"
| "vpackDims (VListNode l) a = Inr (List_vpackDims l a)"
| "vpackDims (RuleNode b) a = Inr (Box_vpackDims b a)"
| "vpackDims (HRuleNode b) a = Inr (Box_vpackDims b a)"
| "vpackDims (VRuleNode b) a = Inr (Box_vpackDims b a)"
| "vpackDims (GlueNode g) a = Glue_vpackDims g a"
| "vpackDims (KernNode k) a = Inr (Kern_vpackDims k a)"
| "vpackDims (SubSuperClusterNode l) a = Inr (List_vpackDims l a)"

subsection \<open>hpack and vpack\<close>

text \<open>The zero values the locals of \<^verbatim>\<open>hpack\<close> and \<^verbatim>\<open>vpack\<close> start from, with the two
  slices of four totals.\<close>

definition dims0 :: dims where
  "dims0 = \<lparr>d_width = Fin 0, d_height = Fin 0, d_depth = Fin 0,
            d_stretch = replicate 4 (Fin 0), d_shrink = replicate 4 (Fin 0)\<rparr>"

text \<open>The loop of \<^verbatim>\<open>hpack\<close>: the type switch sends every node that has \<^verbatim>\<open>hpackDims\<close> to
  it; the nil interface value reaches the default branch, which panics.\<close>

fun hpack_loop :: "node list \<Rightarrow> dims \<Rightarrow> panic + dims" where
  "hpack_loop [] a = Inr a"
| "hpack_loop (NilNode # ns) a = Inl UnknownNodeType"
| "hpack_loop (n # ns) a =
     (case hpackDims n a of Inl e \<Rightarrow> Inl e | Inr a' \<Rightarrow> hpack_loop ns a')"

text \<open>The loop of \<^verbatim>\<open>vpack\<close>: its type switch has no default branch, so the nil
  interface value is skipped.\<close>

fun vpack_loop :: "node list \<Rightarrow> dims \<Rightarrow> panic + dims" where
  "vpack_loop [] a = Inr a"
| "vpack_loop (NilNode # ns) a = vpack_loop ns a"
| "vpack_loop (n # ns) a =
     (case vpackDims n a of Inl e \<Rightarrow> Inl e | Inr a' \<Rightarrow> vpack_loop ns a')"

text \<open>\<^verbatim>\<open>List.setGlue\<close> is \<^verbatim>\<open>panic("FIXME")\<close>.\<close>

definition setGlue :: "TList \<Rightarrow> float64 \<Rightarrow> int \<Rightarrow> float64 list \<Rightarrow> string \<Rightarrow> panic + TList" where
  "setGlue lst x sign totals errMsg = Inl FIXME"

definition set_box :: "TList \<Rightarrow> Box \<Rightarrow> TList" where
  "set_box lst b = TList b (shift lst) (children lst) (glue lst)"

definition set_glue :: "TList \<Rightarrow> GlueSetting \<Rightarrow> TList" where
  "set_glue lst g = TList (box lst) (shift lst) (children lst) g"

text \<open>The last switch of \<^verbatim>\<open>hpack\<close> and of \<^verbatim>\<open>vpack\<close>, on the excess \<open>x\<close>, with the totals
  of the accumulators \<open>a\<close>. The result is the list as the call leaves it and the panic
  that ended it, if one did.\<close>

definition glue_step :: "TList \<Rightarrow> float64 \<Rightarrow> dims \<Rightarrow> TList \<times> panic option" where
  "glue_step lst x a =
     (if feq x (Fin 0)
      then (set_glue lst ((glue lst)\<lparr>glue_sign := 0, glue_order := 0, glue_ratio := Fin 0\<rparr>), None)
      else if fgt x (Fin 0)
      then (case setGlue lst x 1 (d_stretch a) ''overfull'' of
              Inl e \<Rightarrow> (lst, Some e) | Inr l \<Rightarrow> (l, None))
      else (case setGlue lst x (- 1) (d_shrink a) ''underfull'' of
              Inl e \<Rightarrow> (lst, Some e) | Inr l \<Rightarrow> (l, None)))"

definition hpack :: "float64 \<Rightarrow> bool \<Rightarrow> TList \<Rightarrow> TList \<times> panic option" where
  "hpack width additional lst =
     (case hpack_loop (children lst) dims0 of
        Inl e \<Rightarrow> (lst, Some e)
      | Inr a \<Rightarrow>
          (let h = d_height a; d = d_depth a; x = d_width a;
               lst1 = set_box lst ((box lst)\<lparr>box_height := h, box_depth := d\<rparr>);
               width1 = (if additional then fadd width x else width);
               lst2 = set_box lst1 ((box lst1)\<lparr>box_width := width1\<rparr>);
               x1 = fsub width1 x
           in glue_step lst2 x1 a))"

definition vpack :: "float64 \<Rightarrow> bool \<Rightarrow> float64 \<Rightarrow> TList \<Rightarrow> TList \<times> panic option" where
  "vpack height additional l lst =
     (case vpack_loop (children lst) dims0 of
        Inl e \<Rightarrow> (lst, Some e)
      | Inr a \<Rightarrow>
          (let w = d_width a; d = d_depth a; x = d_height a;
               lst1 = set_box lst ((box lst)\<lparr>box_width := w\<rparr>);
               x1 = (if fgt d l then fadd x (fsub d l) else x);
               lst2 = set_box lst1 ((box lst1)\<lparr>box_depth := (if fgt d l then l else d)\<rparr>);
               height1 = (if additional then fadd height x1 else height);
               lst3 = set_box lst2 ((box lst2)\<lparr>box_height := height1\<rparr>);
               x2 = fsub height1 x1
           in glue_step lst3 x2 a))"

subsection \<open>Constructors\<close>

definition Box0 :: Box where
  "Box0 = \<lparr>box_size = 0, box_width = Fin 0, box_height = Fin 0, box_depth = Fin 0\<rparr>"

definition GlueSetting0 :: GlueSetting where
  "GlueSetting0 = \<lparr>glue_set = Fin 0, glue_sign = 0, glue_order = 0, glue_ratio = Fin 0\<rparr>"

definition ListOf :: "node list \<Rightarrow> TList" where
  "ListOf elements = TList Box0 (Fin 0) elements GlueSetting0"

text \<open>A constructor returns its list only if nothing panicked on the way.\<close>

definition returned :: "TList \<times> panic option \<Rightarrow> panic + TList" where
  "returned r = (case snd r of None \<Rightarrow> Inr (fst r) | Some e \<Rightarrow> Inl e)"

definition HListOf_with ::
  "(node \<Rightarrow> node \<Rightarrow> panic + float64) \<Rightarrow> node list \<Rightarrow> bool \<Rightarrow> panic + TList" where
  "HListOf_with K elements doKern =
     (case (if doKern then kern_with K (ListOf elements) else Inr (ListOf elements)) of
        Inl e \<Rightarrow> Inl e
      | Inr lst \<Rightarrow> returned (hpack (Fin 0) True lst))"

definition HListOf :: "node list \<Rightarrow> bool \<Rightarrow> panic + TList" where
  "HListOf = HListOf_with Kerning"


definition newGlue :: "float64 \<Rightarrow> float64 \<Rightarrow> int \<Rightarrow> float64 \<Rightarrow> int \<Rightarrow> Glue" where
  "newGlue w st sto sh sho =
     \<lparr>glue_size = 0, glue_width = w, glue_stretch = st, glue_stretchOrder = sto,
      glue_shrink = sh, glue_shrinkOrder = sho\<rparr>"

definition Glue0 :: Glue where
  "Glue0 = \<lparr>glue_size = 0, glue_width = Fin 0, glue_stretch = Fin 0, glue_stretchOrder = 0,
            glue_shrink = Fin 0, glue_shrinkOrder = 0\<rparr>"

definition NewGlue :: "string \<Rightarrow> panic + Glue" where
  "NewGlue typ =
     (if typ = ''fil'' then Inr (newGlue (Fin 0) (Fin 1) 1 (Fin 0) 0)
      else if typ = ''fill'' then Inr (newGlue (Fin 0) (Fin 1) 2 (Fin 0) 0)
      else if typ = ''filll'' then Inr (newGlue (Fin 0) (Fin 1) 3 (Fin 0) 0)
      else if typ = ''neg_fil'' then Inr (newGlue (Fin 0) (Fin 0) 0 (Fin 1) 1)
      else if typ = ''neg_fill'' then Inr (newGlue (Fin 0) (Fin 0) 0 (Fin 1) 2)
      else if typ = ''neg_filll'' then Inr (newGlue (Fin 0) (Fin 0) 0 (Fin 1) 3)
      else if typ = ''empty'' then Inr Glue0
      else if typ = ''ss'' then Inr (newGlue (Fin 0) (Fin 1) 1 (Fin (- 1)) 1)
      else Inl (UnknownGlueSpec typ))"

section \<open>Notions used in the statements\<close>

subsection \<open>Well-formed children\<close>

text \<open>An order of infinity that indexes one of the four totals.\<close>

definition order_ok :: "int \<Rightarrow> bool" where
  "order_ok ord = (0 \<le> ord \<and> ord < 4)"

fun glue_ok :: "node \<Rightarrow> bool" where
  "glue_ok (GlueNode g) = (order_ok (glue_stretchOrder g) \<and> order_ok (glue_shrinkOrder g))"
| "glue_ok _ = True"

fun is_char :: "node \<Rightarrow> bool" where
  "is_char (CharNode c) = True"
| "is_char (AccentNode c) = True"
| "is_char _ = False"

text \<open>Children that \<^verbatim>\<open>hpack\<close> can visit: no nil interface value, and every glue order
  within the four totals.\<close>

definition hpackable :: "node list \<Rightarrow> bool" where
  "hpackable cs = list_all (\<lambda>n. n \<noteq> NilNode \<and> glue_ok n) cs"

text \<open>Children that \<^verbatim>\<open>vpack\<close> can visit: as for \<^verbatim>\<open>hpack\<close>, and no \<^verbatim>\<open>Char\<close> or \<^verbatim>\<open>Accent\<close>.\<close>

definition vpackable :: "node list \<Rightarrow> bool" where
  "vpackable cs = list_all (\<lambda>n. n \<noteq> NilNode \<and> glue_ok n \<and> \<not> is_char n) cs"

subsection \<open>What a child presents to a horizontal pack\<close>

text \<open>The width a child adds to the natural width (a \<^verbatim>\<open>VBox\<close> has none).\<close>

fun hwidth :: "node \<Rightarrow> float64" where
  "hwidth NilNode = Fin 0"
| "hwidth (BoxNode b) = box_width b"
| "hwidth (VBoxNode b) = Fin 0"
| "hwidth (HBoxNode b) = hbox_width b"
| "hwidth (CharNode c) = char_width c"
| "hwidth (AccentNode c) = char_width c"
| "hwidth (ListNode l) = box_width (box l)"
| "hwidth (HListNode l) = box_width (box l)"
| "hwidth (VListNode l) = box_width (box l)"
| "hwidth (RuleNode b) = box_width b"
| "hwidth (HRuleNode b) = box_width b"
| "hwidth (VRuleNode b) = box_width b"
| "hwidth (GlueNode g) = glue_width g"
| "hwidth (KernNode k) = kern_width k"
| "hwidth (SubSuperClusterNode l) = box_width (box l)"

text \<open>The sum, from 0 and from left to right.\<close>

definition fsum :: "float64 list \<Rightarrow> float64" where
  "fsum xs = foldl fadd (Fin 0) xs"

text \<open>The maximum by \<^verbatim>\<open>math.Max\<close>, from 0 and from left to right.\<close>

definition fmax_list :: "float64 list \<Rightarrow> float64" where
  "fmax_list xs = foldl fmax (Fin 0) xs"

definition natural_width :: "node list \<Rightarrow> float64" where
  "natural_width cs = fsum (map hwidth cs)"

text \<open>The own height and depth of a child that has them (\<^verbatim>\<open>HBox\<close>, \<^verbatim>\<open>Glue\<close> and \<^verbatim>\<open>Kern\<close>
  have none).\<close>

fun own_height :: "node \<Rightarrow> float64 option" where
  "own_height (BoxNode b) = Some (box_height b)"
| "own_height (VBoxNode b) = Some (vbox_height b)"
| "own_height (CharNode c) = Some (char_height c)"
| "own_height (AccentNode c) = Some (char_height c)"
| "own_height (ListNode l) = Some (box_height (box l))"
| "own_height (HListNode l) = Some (box_height (box l))"
| "own_height (VListNode l) = Some (box_height (box l))"
| "own_height (RuleNode b) = Some (box_height b)"
| "own_height (HRuleNode b) = Some (box_height b)"
| "own_height (VRuleNode b) = Some (box_height b)"
| "own_height (SubSuperClusterNode l) = Some (box_height (box l))"
| "own_height _ = None"

fun own_depth :: "node \<Rightarrow> float64 option" where
  "own_depth (BoxNode b) = Some (box_depth b)"
| "own_depth (VBoxNode b) = Some (vbox_depth b)"
| "own_depth (CharNode c) = Some (char_depth c)"
| "own_depth (AccentNode c) = Some (char_depth c)"
| "own_depth (ListNode l) = Some (box_depth (box l))"
| "own_depth (HListNode l) = Some (box_depth (box l))"
| "own_depth (VListNode l) = Some (box_depth (box l))"
| "own_depth (RuleNode b) = Some (box_depth b)"
| "own_depth (HRuleNode b) = Some (box_depth b)"
| "own_depth (VRuleNode b) = Some (box_depth b)"
| "own_depth (SubSuperClusterNode l) = Some (box_depth (box l))"
| "own_depth _ = None"

text \<open>A child whose own height or depth is infinite.\<close>

definition running :: "node \<Rightarrow> bool" where
  "running n =
     ((case own_height n of None \<Rightarrow> False | Some h \<Rightarrow> IsInf h) \<or>
      (case own_depth n of None \<Rightarrow> False | Some d \<Rightarrow> IsInf d))"

text \<open>The shift of a list child, 0 for the other nodes.\<close>

fun shift_of :: "node \<Rightarrow> float64" where
  "shift_of (ListNode l) = shift l"
| "shift_of (HListNode l) = shift l"
| "shift_of (VListNode l) = shift l"
| "shift_of (SubSuperClusterNode l) = shift l"
| "shift_of _ = Fin 0"

text \<open>The height above and the depth below the baseline of the enclosing list that a
  child with a height and a depth takes: a list child is moved by its shift.\<close>

definition hheight :: "node \<Rightarrow> float64 option" where
  "hheight n = map_option (\<lambda>h. fsub h (shift_of n)) (own_height n)"

definition hdepth :: "node \<Rightarrow> float64 option" where
  "hdepth n = map_option (\<lambda>d. fadd d (shift_of n)) (own_depth n)"

text \<open>The children with finite own height and depth, and the children that the code
  lets into the maxima: these and every \<^verbatim>\<open>Char\<close> and \<^verbatim>\<open>Accent\<close>.\<close>

definition finite_children :: "node list \<Rightarrow> node list" where
  "finite_children cs = filter (\<lambda>n. \<not> running n) cs"

definition entering_children :: "node list \<Rightarrow> node list" where
  "entering_children cs = filter (\<lambda>n. is_char n \<or> \<not> running n) cs"

definition max_height :: "node list \<Rightarrow> float64" where
  "max_height cs = fmax_list (List.map_filter hheight cs)"

definition max_depth :: "node list \<Rightarrow> float64" where
  "max_depth cs = fmax_list (List.map_filter hdepth cs)"


subsection \<open>What a child presents to a vertical pack\<close>

text \<open>The width of a child that has one (\<^verbatim>\<open>Glue\<close> and \<^verbatim>\<open>Kern\<close> have a vertical size
  only; a \<^verbatim>\<open>VBox\<close> has width 0).\<close>

fun vwidth :: "node \<Rightarrow> float64 option" where
  "vwidth (BoxNode b) = Some (box_width b)"
| "vwidth (VBoxNode b) = Some (Fin 0)"
| "vwidth (HBoxNode b) = Some (hbox_width b)"
| "vwidth (ListNode l) = Some (box_width (box l))"
| "vwidth (HListNode l) = Some (box_width (box l))"
| "vwidth (VListNode l) = Some (box_width (box l))"
| "vwidth (RuleNode b) = Some (box_width b)"
| "vwidth (HRuleNode b) = Some (box_width b)"
| "vwidth (VRuleNode b) = Some (box_width b)"
| "vwidth (SubSuperClusterNode l) = Some (box_width (box l))"
| "vwidth _ = None"

text \<open>The height a child takes above its own baseline in a vertical list, and its depth
  below it: glue and kerns take their width as height.\<close>

fun vheight :: "node \<Rightarrow> float64" where
  "vheight (BoxNode b) = box_height b"
| "vheight (VBoxNode b) = vbox_height b"
| "vheight (ListNode l) = box_height (box l)"
| "vheight (HListNode l) = box_height (box l)"
| "vheight (VListNode l) = box_height (box l)"
| "vheight (RuleNode b) = box_height b"
| "vheight (HRuleNode b) = box_height b"
| "vheight (VRuleNode b) = box_height b"
| "vheight (SubSuperClusterNode l) = box_height (box l)"
| "vheight (GlueNode g) = glue_width g"
| "vheight (KernNode k) = kern_width k"
| "vheight _ = Fin 0"

fun vdepth :: "node \<Rightarrow> float64" where
  "vdepth (BoxNode b) = box_depth b"
| "vdepth (VBoxNode b) = vbox_depth b"
| "vdepth (ListNode l) = box_depth (box l)"
| "vdepth (HListNode l) = box_depth (box l)"
| "vdepth (VListNode l) = box_depth (box l)"
| "vdepth (RuleNode b) = box_depth b"
| "vdepth (HRuleNode b) = box_depth b"
| "vdepth (VRuleNode b) = box_depth b"
| "vdepth (SubSuperClusterNode l) = box_depth (box l)"
| "vdepth _ = Fin 0"


definition max_finite_width :: "node list \<Rightarrow> float64" where
  "max_finite_width cs = fmax_list (filter (\<lambda>w. \<not> IsInf w) (List.map_filter vwidth cs))"

text \<open>The depth in front of each child: 0 in front of the first, the depth of the child
  before in front of the others.\<close>

definition previous_depths :: "node list \<Rightarrow> float64 list" where
  "previous_depths cs = butlast (Fin 0 # map vdepth cs)"

text \<open>The sum over the children of the depth of the child before plus the child's own
  height, and the depth that the last child leaves.\<close>

definition height_total :: "node list \<Rightarrow> float64" where
  "height_total cs = fsum (map2 (\<lambda>p c. fadd p (vheight c)) (previous_depths cs) cs)"

definition carried_depth :: "node list \<Rightarrow> float64" where
  "carried_depth cs = last (Fin 0 # map vdepth cs)"

subsection \<open>The steps of the loop of hpack on the height and the depth\<close>

text \<open>What one child does to the running maximum of the heights and of the depths.\<close>

definition hstep_height :: "node \<Rightarrow> float64 \<Rightarrow> float64" where
  "hstep_height n h =
     (if is_char n \<or> \<not> running n
      then (case hheight n of None \<Rightarrow> h | Some v \<Rightarrow> fmax h v) else h)"

definition hstep_depth :: "node \<Rightarrow> float64 \<Rightarrow> float64" where
  "hstep_depth n d =
     (if is_char n \<or> \<not> running n
      then (case hdepth n of None \<Rightarrow> d | Some v \<Rightarrow> fmax d v) else d)"

subsection \<open>The natural height and the excess of a pack\<close>

text \<open>What one child does to the running maximum of the widths in \<^verbatim>\<open>vpack\<close>.\<close>

definition vstep_width :: "node \<Rightarrow> float64 \<Rightarrow> float64" where
  "vstep_width n w =
     (case vwidth n of None \<Rightarrow> w | Some v \<Rightarrow> if IsInf v then w else fmax w v)"

text \<open>The height total of a vertical list once the depth is held to \<open>l\<close>: the part of
  the carried depth above \<open>l\<close> is added to it.\<close>

definition vpack_natural :: "node list \<Rightarrow> float64 \<Rightarrow> float64" where
  "vpack_natural cs l =
     (if fgt (carried_depth cs) l then fadd (height_total cs) (fsub (carried_depth cs) l)
      else height_total cs)"

text \<open>The excess: the final size minus the natural size.\<close>

definition hpack_excess :: "float64 \<Rightarrow> bool \<Rightarrow> node list \<Rightarrow> float64" where
  "hpack_excess width additional cs =
     fsub (if additional then fadd width (natural_width cs) else width) (natural_width cs)"

definition vpack_excess :: "float64 \<Rightarrow> bool \<Rightarrow> float64 \<Rightarrow> node list \<Rightarrow> float64" where
  "vpack_excess height additional l cs =
     fsub (if additional then fadd height (vpack_natural cs l) else height) (vpack_natural cs l)"

text \<open>A neutral glue state, the glue setting made neutral, and a box with its three
  dimensions set to 0.\<close>

definition neutral :: "GlueSetting \<Rightarrow> bool" where
  "neutral g = (glue_sign g = 0 \<and> glue_order g = 0 \<and> glue_ratio g = Fin 0)"

definition neutral_glue :: "GlueSetting \<Rightarrow> GlueSetting" where
  "neutral_glue g = g\<lparr>glue_sign := 0, glue_order := 0, glue_ratio := Fin 0\<rparr>"


subsection \<open>The children after the kerning pass\<close>

text \<open>
  With \<open>d i\<close> the kerning that child \<open>i\<close> returns for child \<open>i + 1\<close>: a \<^verbatim>\<open>Kern\<close> is put
  after child \<open>i\<close> when there is a child \<open>i + 1\<close> and \<open>d i\<close> is not 0; \<open>spliced\<close> is the list
  of the children with these kerns between them, and \<open>kerned_width\<close> the sum of the
  widths of the children, each with the width of the kern put after it.
\<close>

definition inserts :: "(nat \<Rightarrow> float64) \<Rightarrow> node list \<Rightarrow> nat \<Rightarrow> bool" where
  "inserts d cs i = (Suc i < length cs \<and> fne (d i) (Fin 0))"

definition spliced :: "(nat \<Rightarrow> float64) \<Rightarrow> node list \<Rightarrow> node list" where
  "spliced d cs =
     concat (map (\<lambda>i. if inserts d cs i then [cs ! i, KernNode (NewKern (d i))] else [cs ! i])
               [0..<length cs])"


subsection \<open>Shrink followed by Grow\<close>

text \<open>\<^verbatim>\<open>Shrink\<close> scales at a size counter when the decremented counter is below
  \<^verbatim>\<open>NUM_SIZE_LEVELS\<close>; otherwise it returns after the decrement.\<close>

definition scales :: "64 word \<Rightarrow> bool" where
  "scales sz = (sz - 1 <s NUM_SIZE_LEVELS)"

text \<open>A node on which \<^verbatim>\<open>Shrink\<close> returns and scales everywhere: no nil child and no
  \<^verbatim>\<open>Accent\<close> in the tree, and \<open>scales\<close> at every size counter of the tree.\<close>

fun restorable :: "node \<Rightarrow> bool"
  and restorable_list :: "TList \<Rightarrow> bool" where
  "restorable NilNode = False"
| "restorable (BoxNode b) = scales (box_size b)"
| "restorable (VBoxNode b) = scales (vbox_size b)"
| "restorable (HBoxNode b) = scales (hbox_size b)"
| "restorable (CharNode c) = scales (char_size c)"
| "restorable (AccentNode c) = False"
| "restorable (ListNode l) = restorable_list l"
| "restorable (HListNode l) = restorable_list l"
| "restorable (VListNode l) = restorable_list l"
| "restorable (RuleNode b) = scales (box_size b)"
| "restorable (HRuleNode b) = scales (box_size b)"
| "restorable (VRuleNode b) = scales (box_size b)"
| "restorable (GlueNode g) = scales (glue_size g)"
| "restorable (KernNode k) = scales (kern_size k)"
| "restorable (SubSuperClusterNode l) = restorable_list l"
| "restorable_list (TList b s cs g) = (scales (box_size b) \<and> list_all restorable cs)"

text \<open>The dimensions that \<^verbatim>\<open>Shrink\<close> and \<^verbatim>\<open>Grow\<close> scale and that a node shows: the width,
  the height and the depth that the node has, for a list also the shift and the glue
  set amount, followed by the dimensions of the children in order.\<close>

fun dims_of :: "node \<Rightarrow> float64 list"
  and dims_of_list :: "TList \<Rightarrow> float64 list" where
  "dims_of NilNode = []"
| "dims_of (BoxNode b) = [box_width b, box_height b, box_depth b]"
| "dims_of (VBoxNode b) = [vbox_height b, vbox_depth b]"
| "dims_of (HBoxNode b) = [hbox_width b]"
| "dims_of (CharNode c) = [char_width c, char_height c, char_depth c]"
| "dims_of (AccentNode c) = [char_width c, char_height c, char_depth c]"
| "dims_of (ListNode l) = dims_of_list l"
| "dims_of (HListNode l) = dims_of_list l"
| "dims_of (VListNode l) = dims_of_list l"
| "dims_of (RuleNode b) = [box_width b, box_height b, box_depth b]"
| "dims_of (HRuleNode b) = [box_width b, box_height b, box_depth b]"
| "dims_of (VRuleNode b) = [box_width b, box_height b, box_depth b]"
| "dims_of (GlueNode g) = [glue_width g]"
| "dims_of (KernNode k) = [kern_width k]"
| "dims_of (SubSuperClusterNode l) = dims_of_list l"
| "dims_of_list (TList b s cs g) =
     [box_width b, box_height b, box_depth b, s, glue_set g] @ concat (map dims_of cs)"

text \<open>A dimension in the range where binary64 keeps its full precision through a
  \<^verbatim>\<open>Shrink\<close> and a \<^verbatim>\<open>Grow\<close>: zero, an infinity, or a finite value whose magnitude is at
  least \<open>2\<^sup>-\<^sup>1\<^sup>0\<^sup>2\<^sup>1\<close>, twice the least normal number, and at most \<open>2\<^sup>1\<^sup>0\<^sup>2\<^sup>3\<close>.\<close>

fun normal :: "float64 \<Rightarrow> bool" where
  "normal (Fin a) = (a = 0 \<or> (2 powi (- 1021) \<le> \<bar>a\<bar> \<and> \<bar>a\<bar> \<le> 2 powi 1023))"
| "normal PInf = True"
| "normal NInf = True"
| "normal NaN = False"

text \<open>Equal within a relative tolerance of \<open>10\<^sup>-\<^sup>9\<close>.\<close>

definition within_tolerance :: "float64 \<Rightarrow> float64 \<Rightarrow> bool" where
  "within_tolerance x y =
     (case (x, y) of
        (Fin a, Fin b) \<Rightarrow> \<bar>a - b\<bar> \<le> \<bar>b\<bar> / 10 ^ 9
      | _ \<Rightarrow> x = y \<and> \<not> IsNaN x)"

text \<open>A binary64 result \<open>r\<close> of an operation whose exact value is \<open>v\<close>, rounded to nearest
  with neither underflow nor overflow: the relative error is at most \<open>2\<^sup>-\<^sup>5\<^sup>3\<close>.\<close>

definition rounds :: "real \<Rightarrow> real \<Rightarrow> bool" where
  "rounds r v = (\<bar>r - v\<bar> \<le> \<bar>v\<bar> / 2 ^ 53)"

subsection \<open>The strings that NewGlue knows\<close>

definition glue_specs :: "string set" where
  "glue_specs =
     {''fil'', ''fill'', ''filll'', ''neg_fil'', ''neg_fill'', ''neg_filll'', ''empty'', ''ss''}"

subsection \<open>Concrete inputs\<close>

text \<open>The example of the specification: an \<^verbatim>\<open>HBox\<close> of width 10 and a glue of natural
  width 0 that stretches by 5 at order 1.\<close>

definition spec_hbox :: HBox where
  "spec_hbox = \<lparr>hbox_size = 0, hbox_width = Fin 10\<rparr>"

definition spec_glue :: Glue where
  "spec_glue = newGlue (Fin 0) (Fin 5) 1 (Fin 0) 0"

text \<open>Boxes of width, height and depth 10 at the size levels 0 and 6, and a box of
  width, height and depth 1 at the size level 7.\<close>

definition level0_box :: Box where
  "level0_box = \<lparr>box_size = 0, box_width = Fin 10, box_height = Fin 10, box_depth = Fin 10\<rparr>"

definition level6_box :: Box where
  "level6_box = \<lparr>box_size = 6, box_width = Fin 10, box_height = Fin 10, box_depth = Fin 10\<rparr>"

definition level7_box :: Box where
  "level7_box = \<lparr>box_size = 7, box_width = Fin 1, box_height = Fin 1, box_depth = Fin 1\<rparr>"

text \<open>A character of width 2, height 3 and depth 1 at size level 0.\<close>

definition spec_char :: Char where
  "spec_char = \<lparr>char_c = 120, char_size = 0, char_width = Fin 2, char_height = Fin 3,
                char_depth = Fin 1, char_font_size = Fin 12, char_dpi = Fin 72,
                char_math = False\<rparr>"

text \<open>A character as \<open>spec_char\<close> with an infinite height, and a rule box with a running
  width, as \<^verbatim>\<open>NewHRule\<close> asks for.\<close>

definition inf_char :: Char where
  "inf_char = spec_char\<lparr>char_height := PInf\<rparr>"



text \<open>A horizontal list at size level 6, with the shift 2 and the glue set amount 3,
  that holds a box, a glue, a character and a rule with a running height.\<close>

definition sample_hlist :: node where
  "sample_hlist =
     HListNode (TList level6_box (Fin 2)
       [BoxNode level0_box, GlueNode spec_glue, CharNode spec_char,
        VRuleNode (level0_box\<lparr>box_height := PInf\<rparr>)]
       (GlueSetting0\<lparr>glue_set := Fin 3\<rparr>))"

text \<open>A box at size level 0 whose width is the second least positive binary64 number,
  twice \<open>2\<^sup>-\<^sup>1\<^sup>0\<^sup>7\<^sup>4\<close> (about \<open>10\<^sup>-\<^sup>3\<^sup>2\<^sup>3\<close>).\<close>

definition tiny_box :: Box where
  "tiny_box = \<lparr>box_size = 0, box_width = Fin (2 * 2 powi (- 1074)), box_height = Fin 0,
               box_depth = Fin 0\<rparr>"


section \<open>Theorems\<close>

subsection \<open>Arithmetic of float64\<close>

lemma fadd_zero_right [simp]: "fadd x (Fin 0) = x"
  by (cases x) auto

lemma fadd_zero_left [simp]: "fadd (Fin 0) x = x"
  by (cases x) auto

lemma fadd_assoc: "fadd (fadd a b) c = fadd a (fadd b c)"
  by (cases a; cases b; cases c) auto

lemma fsub_zero [simp]: "fsub x (Fin 0) = x"
  by (cases x) (auto simp: fsub_def)

subsection \<open>Rounding to binary64\<close>

text \<open>\<open>round_even\<close> is within a half of its argument, and \<open>ilog2\<close> is the binary exponent.\<close>

lemma round_even_close: "\<bar>real_of_int (round_even x) - x\<bar> \<le> 1 / 2"
proof -
  have "of_int \<lfloor>x\<rfloor> \<le> x" "x < of_int \<lfloor>x\<rfloor> + 1" by linarith+
  then show ?thesis
    by (auto simp: round_even_def Let_def)
qed

lemma ilog2_bounds:
  assumes "0 < x"
  shows "2 powi (ilog2 x) \<le> x" and "x < 2 powi (ilog2 x + 1)"
proof -
  have "2 powi (ilog2 x) \<le> x \<and> x < 2 powi (ilog2 x + 1)"
  proof (cases "1 \<le> x")
    case True
    define n where "n = nat \<lfloor>x\<rfloor>"
    define k where "k = floorlog 2 n"
    have n0: "0 < n" using True by (simp add: n_def)
    have fl: "real n = of_int \<lfloor>x\<rfloor>"
      using True by (simp add: n_def)
    have nx: "real n \<le> x" "x < real n + 1"
      unfolding fl by linarith+
    have b: "2 ^ (k - 1) \<le> n" "n < 2 ^ k"
      using floorlog_bounds [of n 2] n0 by (simp_all add: k_def)
    have "k \<noteq> 0"
      using n0 by (simp add: k_def floorlog_eq_zero_iff)
    then have k1: "1 \<le> k" by simp
    have e: "ilog2 x = int (k - 1)"
      using True k1 by (simp add: ilog2_def n_def k_def)
    have e1: "ilog2 x + 1 = int k"
      using e k1 by simp
    have r1: "(2::real) ^ (k - 1) \<le> real n"
    proof -
      have "real (2 ^ (k - 1)) \<le> real n" using b(1) by (simp only: of_nat_le_iff)
      then show ?thesis by simp
    qed
    have r2: "real n + 1 \<le> (2::real) ^ k"
    proof -
      have "Suc n \<le> 2 ^ k" using b(2) by simp
      then have "real (Suc n) \<le> real (2 ^ k)" by (simp only: of_nat_le_iff)
      then show ?thesis by simp
    qed
    have p1: "2 powi (ilog2 x) = (2::real) ^ (k - 1)"
      unfolding e by (rule power_int_of_nat)
    have p2: "2 powi (ilog2 x + 1) = (2::real) ^ k"
      unfolding e1 by (rule power_int_of_nat)
    have lo: "2 powi (ilog2 x) \<le> x"
      unfolding p1 using r1 nx(1) by linarith
    have hi: "x < 2 powi (ilog2 x + 1)"
      unfolding p2 using r2 nx(2) by linarith
    from lo hi show ?thesis by simp
  next
    case False
    define y where "y = 1 / x"
    define n where "n = nat (\<lceil>y\<rceil> - 1)"
    define k where "k = floorlog 2 n"
    have y1: "1 < y" using False assms by (simp add: y_def)
    have c2: "2 \<le> \<lceil>y\<rceil>" using y1 by linarith
    have n0: "0 < n" using c2 by (simp add: n_def)
    have fl: "real n = of_int \<lceil>y\<rceil> - 1"
      using c2 by (simp add: n_def)
    have ny: "real n < y" "y \<le> real n + 1"
      unfolding fl by linarith+
    have b: "2 ^ (k - 1) \<le> n" "n < 2 ^ k"
      using floorlog_bounds [of n 2] n0 by (simp_all add: k_def)
    have "k \<noteq> 0"
      using n0 by (simp add: k_def floorlog_eq_zero_iff)
    then have k1: "1 \<le> k" by simp
    have e: "ilog2 x = - int k"
      using False by (simp add: ilog2_def n_def k_def y_def)
    have e1: "ilog2 x + 1 = - int (k - 1)"
      using e k1 by simp
    have r1: "(2::real) ^ (k - 1) \<le> real n"
    proof -
      have "real (2 ^ (k - 1)) \<le> real n" using b(1) by (simp only: of_nat_le_iff)
      then show ?thesis by simp
    qed
    have r2: "real n + 1 \<le> (2::real) ^ k"
    proof -
      have "Suc n \<le> 2 ^ k" using b(2) by simp
      then have "real (Suc n) \<le> real (2 ^ k)" by (simp only: of_nat_le_iff)
      then show ?thesis by simp
    qed
    have yx: "x = 1 / y" using assms by (simp add: y_def)
    have ylo: "(2::real) ^ (k - 1) < y" using r1 ny(1) by linarith
    have yhi: "y \<le> (2::real) ^ k" using r2 ny(2) by linarith
    have p1: "2 powi (ilog2 x) = 1 / (2::real) ^ k"
      unfolding e by (simp add: power_int_minus_divide)
    have p2: "2 powi (ilog2 x + 1) = 1 / (2::real) ^ (k - 1)"
      unfolding e1 by (simp add: power_int_minus_divide)
    have "1 / (2::real) ^ k \<le> 1 / y"
      using yhi y1 by (intro divide_left_mono) auto
    then have lo: "2 powi (ilog2 x) \<le> x"
      using p1 yx by simp
    have "1 / y < 1 / (2::real) ^ (k - 1)"
      using ylo y1 by (intro divide_strict_left_mono) auto
    then have hi: "x < 2 powi (ilog2 x + 1)"
      using p2 yx by simp
    from lo hi show ?thesis by simp
  qed
  then show "2 powi (ilog2 x) \<le> x" and "x < 2 powi (ilog2 x + 1)" by simp_all
qed

lemma ilog2_unique:
  assumes x: "0 < x" and lo: "2 powi e \<le> x" and hi: "x < 2 powi (e + 1)"
  shows "ilog2 x = e"
proof -
  have b: "2 powi (ilog2 x) \<le> x" "x < 2 powi (ilog2 x + 1)"
    using ilog2_bounds [OF x] by simp_all
  have "\<not> e + 1 \<le> ilog2 x"
  proof
    assume "e + 1 \<le> ilog2 x"
    then have "(2::real) powi (e + 1) \<le> 2 powi (ilog2 x)"
      by (rule power_int_increasing) simp
    with b(1) hi show False by linarith
  qed
  moreover have "\<not> ilog2 x + 1 \<le> e"
  proof
    assume "ilog2 x + 1 \<le> e"
    then have "(2::real) powi (ilog2 x + 1) \<le> 2 powi e"
      by (rule power_int_increasing) simp
    with b(2) lo show False by linarith
  qed
  ultimately show ?thesis by linarith
qed

text \<open>In the normal range \<open>round64\<close> returns a finite value with a relative error of at
  most \<open>2\<^sup>-\<^sup>5\<^sup>3\<close>.\<close>

lemma round64_rounds:
  assumes lo: "2 powi (- 1022) \<le> \<bar>v\<bar>" and hi: "\<bar>v\<bar> \<le> 3 / 2 * 2 powi 1023"
  shows "\<exists>r. round64 v = Fin r \<and> rounds r v"
proof -
  have p: "(0::real) < 2 powi (- 1022)" by simp
  have v0: "v \<noteq> 0" "0 < \<bar>v\<bar>" using lo p by auto
  define e where "e = ilog2 \<bar>v\<bar>"
  define q :: real where "q = 2 powi (e - 52)"
  define r where "r = real_of_int (round_even (v / q)) * q"
  have b: "2 powi e \<le> \<bar>v\<bar>" "\<bar>v\<bar> < 2 powi (e + 1)"
    using ilog2_bounds [OF v0(2)] by (simp_all add: e_def)
  have "(2::real) powi (- 1022) < 2 powi (e + 1)" using lo b(2) by linarith
  then have el: "- 1022 \<le> e"
  proof (rule contrapos_pp)
    assume "\<not> - 1022 \<le> e"
    then have "e + 1 \<le> - 1022" by simp
    then have "(2::real) powi (e + 1) \<le> 2 powi (- 1022)"
      by (rule power_int_increasing) simp
    then show "\<not> (2::real) powi (- 1022) < 2 powi (e + 1)" by linarith
  qed
  have m: "max e (- 1022) = e" using el by simp
  have q0: "0 < q" by (simp add: q_def)
  have c: "\<bar>real_of_int (round_even (v / q)) - v / q\<bar> \<le> 1 / 2" by (rule round_even_close)
  have "r - v = (real_of_int (round_even (v / q)) - v / q) * q"
    using q0 by (simp add: r_def field_simps)
  then have "\<bar>r - v\<bar> = \<bar>real_of_int (round_even (v / q)) - v / q\<bar> * q"
    using q0 by (simp add: abs_mult)
  also have "\<dots> \<le> 1 / 2 * q" using c q0 by (intro mult_right_mono) auto
  finally have d: "\<bar>r - v\<bar> \<le> q / 2" by simp
  have qe: "q = 2 powi e / 2 ^ 52"
    by (simp add: q_def power_int_diff)
  have h: "q / 2 = 2 powi e / 2 ^ 53" by (simp add: qe)
  have "q / 2 \<le> \<bar>v\<bar> / 2 ^ 53"
    unfolding h using b(1) by (intro divide_right_mono) auto
  with d have rd: "rounds r v" by (simp add: rounds_def)
  define T :: real where "T = 2 powi 1023"
  have T0: "0 < T" unfolding T_def by (rule zero_less_power_int) simp
  have T2: "(2::real) powi 1024 = T * 2"
    unfolding T_def using power_int_add_1 [of "2::real" 1023] by simp
  have hi': "\<bar>v\<bar> \<le> 3 / 2 * T" using hi unfolding T_def .
  have "\<bar>v\<bar> / 2 ^ 53 \<le> \<bar>v\<bar> / 100"
    by (intro divide_left_mono) auto
  with rd have "\<bar>r - v\<bar> \<le> \<bar>v\<bar> / 100"
    unfolding rounds_def by linarith
  with hi' T0 have "\<bar>r\<bar> < T * 2" by linarith
  then have ov: "\<not> 2 powi 1024 \<le> \<bar>r\<bar>" unfolding T2 by linarith
  have "round64 v = Fin r"
    using v0(1) ov unfolding round64_def Let_def e_def [symmetric] m q_def [symmetric] r_def [symmetric]
    by simp
  with rd show ?thesis by blast
qed

lemma rounds_bounds:
  assumes "rounds r v"
  shows "\<bar>r\<bar> \<le> 101 / 100 * \<bar>v\<bar>" and "99 / 100 * \<bar>v\<bar> \<le> \<bar>r\<bar>"
proof -
  have "\<bar>v\<bar> / 2 ^ 53 \<le> \<bar>v\<bar> / 100"
    by (intro divide_left_mono) auto
  with assms have "\<bar>r - v\<bar> \<le> \<bar>v\<bar> / 100"
    unfolding rounds_def by linarith
  then show "\<bar>r\<bar> \<le> 101 / 100 * \<bar>v\<bar>" and "99 / 100 * \<bar>v\<bar> \<le> \<bar>r\<bar>"
    by linarith+
qed

text \<open>\<open>round64\<close> evaluated: on a value of binary exponent \<open>e\<close> in the normal range, and on
  a value below the least normal number.\<close>

lemma round64_normal:
  assumes lo: "2 powi e \<le> \<bar>x\<bar>" and hi: "\<bar>x\<bar> < 2 powi (e + 1)"
    and e: "- 1022 \<le> e" "e \<le> 1022"
  shows "round64 x = Fin (of_int (round_even (x / 2 powi (e - 52))) * 2 powi (e - 52))"
proof -
  have p: "(0::real) < 2 powi e" by simp
  have x1: "0 < \<bar>x\<bar>" using lo p by linarith
  then have x0: "x \<noteq> 0" "0 < \<bar>x\<bar>" by auto
  have i: "ilog2 \<bar>x\<bar> = e" by (rule ilog2_unique [OF x0(2) lo hi])
  have "(2::real) powi (- 1022) \<le> 2 powi e"
    using e(1) by (rule power_int_increasing) simp
  then have l: "2 powi (- 1022) \<le> \<bar>x\<bar>" using lo by linarith
  have "(2::real) powi (e + 1) \<le> 2 powi 1023"
    using e(2) by (intro power_int_increasing) simp_all
  moreover have "(0::real) < 2 powi 1023" by (rule zero_less_power_int) simp
  ultimately have h: "\<bar>x\<bar> \<le> 3 / 2 * 2 powi 1023" using hi by linarith
  obtain r where r: "round64 x = Fin r" using round64_rounds [OF l h] by blast
  have m: "max e (- 1022) = e" using e(1) by simp
  show ?thesis
    using r x0(1) unfolding round64_def Let_def i m
    by (simp split: if_splits)
qed

lemma round64_subnormal:
  assumes x0: "x \<noteq> 0" and hi: "\<bar>x\<bar> < 2 powi (- 1022)"
  shows "round64 x = Fin (of_int (round_even (x / 2 powi (- 1074))) * 2 powi (- 1074))"
proof -
  define q :: real where "q = 2 powi (- 1074)"
  define r where "r = real_of_int (round_even (x / q)) * q"
  have x1: "0 < \<bar>x\<bar>" using x0 by simp
  have b: "2 powi (ilog2 \<bar>x\<bar>) \<le> \<bar>x\<bar>" using ilog2_bounds(1) [OF x1] .
  have "\<not> - 1022 \<le> ilog2 \<bar>x\<bar>"
  proof
    assume "- 1022 \<le> ilog2 \<bar>x\<bar>"
    then have "(2::real) powi (- 1022) \<le> 2 powi (ilog2 \<bar>x\<bar>)"
      by (rule power_int_increasing) simp
    with b hi show False by linarith
  qed
  then have m: "max (ilog2 \<bar>x\<bar>) (- 1022) = - 1022" by simp
  have q0: "0 < q" by (simp add: q_def)
  have q1: "q \<le> 1"
  proof -
    have "(2::real) powi (- 1074) \<le> 2 powi 0"
      by (rule power_int_increasing) simp_all
    then show ?thesis by (simp add: q_def)
  qed
  have h1: "(2::real) powi (- 1022) \<le> 1"
  proof -
    have "(2::real) powi (- 1022) \<le> 2 powi 0"
      by (rule power_int_increasing) simp_all
    then show ?thesis by simp
  qed
  have big: "(2::real) \<le> 2 powi 1024"
  proof -
    have "(2::real) powi 1 \<le> 2 powi 1024"
      by (rule power_int_increasing) simp_all
    then show ?thesis by simp
  qed
  have c: "\<bar>real_of_int (round_even (x / q)) - x / q\<bar> \<le> 1 / 2" by (rule round_even_close)
  have "r - x = (real_of_int (round_even (x / q)) - x / q) * q"
    using q0 by (simp add: r_def field_simps)
  then have "\<bar>r - x\<bar> = \<bar>real_of_int (round_even (x / q)) - x / q\<bar> * q"
    using q0 by (simp add: abs_mult)
  also have "\<dots> \<le> 1 / 2 * q" using c q0 by (intro mult_right_mono) auto
  finally have d: "\<bar>r - x\<bar> \<le> q / 2" by simp
  have "\<bar>r\<bar> < 2" using d q1 hi h1 by linarith
  then have ov: "\<not> 2 powi 1024 \<le> \<bar>r\<bar>" using big by linarith
  have e52: "(- 1022 - 52 :: int) = - 1074" by simp
  show ?thesis
    using x0 ov unfolding round64_def Let_def m e52 q_def [symmetric] r_def [symmetric]
    by simp
qed

text \<open>The two constants as \<^verbatim>\<open>float64\<close>: \<^verbatim>\<open>0.7\<close> is \<open>3152519739159347 / 2\<^sup>5\<^sup>2\<close> and
  \<^verbatim>\<open>1.0 / 0.7\<close> is \<open>6433713753386423 / 2\<^sup>5\<^sup>2\<close>.\<close>

lemma SHRINK_FACTOR_value: "SHRINK_FACTOR = Fin (3152519739159347 / 2 ^ 52)"
  unfolding SHRINK_FACTOR_def
  by (subst round64_normal [where e = "- 1"]) (simp_all add: round_even_def Let_def)

lemma GROW_FACTOR_value: "GROW_FACTOR = Fin (6433713753386423 / 2 ^ 52)"
  unfolding GROW_FACTOR_def
  by (subst round64_normal [where e = 0]) (simp_all add: round_even_def Let_def)

lemma factor_signs:
  "fsgn SHRINK_FACTOR = 1" "fsgn GROW_FACTOR = 1" "\<not> IsNaN SHRINK_FACTOR" "\<not> IsNaN GROW_FACTOR"
  by (simp_all add: SHRINK_FACTOR_value GROW_FACTOR_value)

lemma SHRINK_FACTOR_rounds: "\<exists>s. SHRINK_FACTOR = Fin s \<and> rounds s (7 / 10)"
  unfolding SHRINK_FACTOR_def by (rule round64_rounds) simp_all

lemma GROW_FACTOR_rounds: "\<exists>g. GROW_FACTOR = Fin g \<and> rounds g (10 / 7)"
proof -
  have "\<exists>g. round64 (10 / 7) = Fin g \<and> rounds g (10 / 7)"
    by (rule round64_rounds) simp_all
  then show ?thesis by (simp add: GROW_FACTOR_def)
qed

lemma fmul_0: "fmul (Fin 0) SHRINK_FACTOR = Fin 0" "fmul (Fin 0) GROW_FACTOR = Fin 0"
  by (simp_all add: SHRINK_FACTOR_value GROW_FACTOR_value round64_def)

text \<open>Products with the two constants, each rounded: seven times \<^verbatim>\<open>SHRINK_FACTOR\<close> from
  10, \<^verbatim>\<open>GROW_FACTOR\<close> on 1, and \<^verbatim>\<open>SHRINK_FACTOR\<close> then \<^verbatim>\<open>GROW_FACTOR\<close> on 1, 2, 3, 12 and
  10: 3 comes back as \<open>2.9999999999999996\<close> and 12 as \<open>11.999999999999998\<close>.\<close>

lemma shrink_step1: "fmul (Fin 10) SHRINK_FACTOR = Fin 7"
  unfolding SHRINK_FACTOR_value fmul.simps
  by (subst round64_normal [where e = 2]) (simp_all add: round_even_def Let_def)

lemma shrink_step2: "fmul (Fin 7) SHRINK_FACTOR = Fin (5516909543528857 / 2 ^ 50)"
  unfolding SHRINK_FACTOR_value fmul.simps
  by (subst round64_normal [where e = 2]) (simp_all add: round_even_def Let_def)

lemma shrink_step3: "fmul (Fin (5516909543528857 / 2 ^ 50)) SHRINK_FACTOR = Fin (7723673360940399 / 2 ^ 51)"
  unfolding SHRINK_FACTOR_value fmul.simps
  by (subst round64_normal [where e = 1]) (simp_all add: round_even_def Let_def)

lemma shrink_step4: "fmul (Fin (7723673360940399 / 2 ^ 51)) SHRINK_FACTOR = Fin (5406571352658279 / 2 ^ 51)"
  unfolding SHRINK_FACTOR_value fmul.simps
  by (subst round64_normal [where e = 1]) (simp_all add: round_even_def Let_def)

lemma shrink_step5: "fmul (Fin (5406571352658279 / 2 ^ 51)) SHRINK_FACTOR = Fin (3784599946860795 / 2 ^ 51)"
  unfolding SHRINK_FACTOR_value fmul.simps
  by (subst round64_normal [where e = 0]) (simp_all add: round_even_def Let_def)

lemma shrink_step6: "fmul (Fin (3784599946860795 / 2 ^ 51)) SHRINK_FACTOR = Fin (5298439925605113 / 2 ^ 52)"
  unfolding SHRINK_FACTOR_value fmul.simps
  by (subst round64_normal [where e = 0]) (simp_all add: round_even_def Let_def)

lemma shrink_step7: "fmul (Fin (5298439925605113 / 2 ^ 52)) SHRINK_FACTOR = Fin (3708907947923579 / 2 ^ 52)"
  unfolding SHRINK_FACTOR_value fmul.simps
  by (subst round64_normal [where e = "- 1"]) (simp_all add: round_even_def Let_def)

lemma grow_1: "fmul (Fin 1) GROW_FACTOR = Fin (6433713753386423 / 2 ^ 52)"
  unfolding GROW_FACTOR_value fmul.simps
  by (subst round64_normal [where e = 0]) (simp_all add: round_even_def Let_def)

lemma shrink_1: "fmul (Fin 1) SHRINK_FACTOR = Fin (3152519739159347 / 2 ^ 52)"
  unfolding SHRINK_FACTOR_value fmul.simps
  by (subst round64_normal [where e = "- 1"]) (simp_all add: round_even_def Let_def)

lemma grow_back_1: "fmul (Fin (3152519739159347 / 2 ^ 52)) GROW_FACTOR = Fin 1"
  unfolding GROW_FACTOR_value fmul.simps
  by (subst round64_normal [where e = "- 1"]) (simp_all add: round_even_def Let_def)

lemma shrink_2: "fmul (Fin 2) SHRINK_FACTOR = Fin (3152519739159347 / 2 ^ 51)"
  unfolding SHRINK_FACTOR_value fmul.simps
  by (subst round64_normal [where e = 0]) (simp_all add: round_even_def Let_def)

lemma grow_back_2: "fmul (Fin (3152519739159347 / 2 ^ 51)) GROW_FACTOR = Fin 2"
  unfolding GROW_FACTOR_value fmul.simps
  by (subst round64_normal [where e = 0]) (simp_all add: round_even_def Let_def)

lemma shrink_3: "fmul (Fin 3) SHRINK_FACTOR = Fin (1182194902184755 / 2 ^ 49)"
  unfolding SHRINK_FACTOR_value fmul.simps
  by (subst round64_normal [where e = 1]) (simp_all add: round_even_def Let_def)

lemma grow_back_3: "fmul (Fin (1182194902184755 / 2 ^ 49)) GROW_FACTOR = Fin (6755399441055743 / 2 ^ 51)"
  unfolding GROW_FACTOR_value fmul.simps
  by (subst round64_normal [where e = 1]) (simp_all add: round_even_def Let_def)

lemma shrink_12: "fmul (Fin 12) SHRINK_FACTOR = Fin (1182194902184755 / 2 ^ 47)"
  unfolding SHRINK_FACTOR_value fmul.simps
  by (subst round64_normal [where e = 3]) (simp_all add: round_even_def Let_def)

lemma grow_back_12: "fmul (Fin (1182194902184755 / 2 ^ 47)) GROW_FACTOR = Fin (6755399441055743 / 2 ^ 49)"
  unfolding GROW_FACTOR_value fmul.simps
  by (subst round64_normal [where e = 3]) (simp_all add: round_even_def Let_def)

lemma grow_back_10: "fmul (Fin 7) GROW_FACTOR = Fin 10"
  unfolding GROW_FACTOR_value fmul.simps
  by (subst round64_normal [where e = 3]) (simp_all add: round_even_def Let_def)

text \<open>The same on the second least positive number, \<open>2 * 2\<^sup>-\<^sup>1\<^sup>0\<^sup>7\<^sup>4\<close>: the product with
  \<^verbatim>\<open>SHRINK_FACTOR\<close> rounds to \<open>2\<^sup>-\<^sup>1\<^sup>0\<^sup>7\<^sup>4\<close>, and so does the product of that with
  \<^verbatim>\<open>GROW_FACTOR\<close>.\<close>

lemma tiny_shrink: "fmul (Fin (2 * 2 powi (- 1074))) SHRINK_FACTOR = Fin (2 powi (- 1074))"
proof -
  define t :: real where "t = 2 powi (- 1074)"
  define s :: real where "s = 3152519739159347 / 2 ^ 52"
  have t0: "0 < t" unfolding t_def by (rule zero_less_power_int) simp
  have p: "(2::real) powi (- 1022) = 2 ^ 52 * t"
    unfolding t_def using power_int_add [of "2::real" 52 "- 1074"] by simp
  have s1: "0 < s" "2 * s < 2 ^ 52" "round_even (2 * s) = 1"
    by (simp_all add: s_def round_even_def Let_def)
  have x0: "2 * t * s \<noteq> 0" using t0 s1(1) by simp
  have a: "\<bar>2 * t * s\<bar> = 2 * s * t" using t0 s1(1) by (simp add: abs_mult)
  have "2 * s * t < 2 ^ 52 * t" using s1(2) t0 by (rule mult_strict_right_mono)
  then have hi: "\<bar>2 * t * s\<bar> < 2 powi (- 1022)" unfolding p a .
  have d: "2 * t * s / t = 2 * s" using t0 by simp
  have "round64 (2 * t * s) = Fin (of_int (round_even (2 * t * s / t)) * t)"
    using round64_subnormal [OF x0 hi] unfolding t_def .
  then have "round64 (2 * t * s) = Fin t" unfolding d s1(3) by simp
  then show ?thesis unfolding SHRINK_FACTOR_value fmul.simps t_def s_def .
qed

lemma tiny_grow: "fmul (Fin (2 powi (- 1074))) GROW_FACTOR = Fin (2 powi (- 1074))"
proof -
  define t :: real where "t = 2 powi (- 1074)"
  define g :: real where "g = 6433713753386423 / 2 ^ 52"
  have t0: "0 < t" unfolding t_def by (rule zero_less_power_int) simp
  have p: "(2::real) powi (- 1022) = 2 ^ 52 * t"
    unfolding t_def using power_int_add [of "2::real" 52 "- 1074"] by simp
  have g1: "0 < g" "g < 2 ^ 52" "round_even g = 1"
    by (simp_all add: g_def round_even_def Let_def)
  have x0: "t * g \<noteq> 0" using t0 g1(1) by simp
  have a: "\<bar>t * g\<bar> = g * t" using t0 g1(1) by (simp add: abs_mult)
  have "g * t < 2 ^ 52 * t" using g1(2) t0 by (rule mult_strict_right_mono)
  then have hi: "\<bar>t * g\<bar> < 2 powi (- 1022)" unfolding p a .
  have d: "t * g / t = g" using t0 by simp
  have "round64 (t * g) = Fin (of_int (round_even (t * g / t)) * t)"
    using round64_subnormal [OF x0 hi] unfolding t_def .
  then have "round64 (t * g) = Fin t" unfolding d g1(3) by simp
  then show ?thesis unfolding GROW_FACTOR_value fmul.simps t_def g_def .
qed

lemma tiny_not_within:
  "\<not> within_tolerance (Fin (2 powi (- 1074))) (Fin (2 * 2 powi (- 1074)))"
proof -
  define t :: real where "t = 2 powi (- 1074)"
  have t0: "0 < t" unfolding t_def by (rule zero_less_power_int) simp
  have a: "\<bar>t - 2 * t\<bar> = t" "\<bar>2 * t\<bar> = 2 * t" using t0 by simp_all
  have "\<not> t \<le> 2 * t / 10 ^ 9" using t0 by simp
  then have "\<not> within_tolerance (Fin t) (Fin (2 * t))"
    unfolding within_tolerance_def by (simp add: a)
  then show ?thesis unfolding t_def .
qed

text \<open>With every constant and product rounded to a relative error of \<open>2\<^sup>-\<^sup>5\<^sup>3\<close>, a finite
  value multiplied by \<^verbatim>\<open>SHRINK_FACTOR\<close> and then by \<^verbatim>\<open>GROW_FACTOR\<close> comes back within
  \<open>10\<^sup>-\<^sup>9\<close> of itself.\<close>

lemma rel_prod:
  fixes p q e1 e2 :: real
  assumes "\<bar>p - 1\<bar> \<le> e1" "\<bar>q - 1\<bar> \<le> e2"
  shows "\<bar>p * q - 1\<bar> \<le> e1 + e2 + e1 * e2"
proof -
  define a where "a = p - 1"
  define b where "b = q - 1"
  have pq: "p * q - 1 = a * b + a + b"
    by (simp add: a_def b_def algebra_simps)
  have "\<bar>a * b + a + b\<bar> \<le> \<bar>a * b\<bar> + \<bar>a\<bar> + \<bar>b\<bar>"
    using abs_triangle_ineq [of "a * b + a" b] abs_triangle_ineq [of "a * b" a] by linarith
  moreover have "\<bar>a * b\<bar> \<le> e1 * e2"
    unfolding abs_mult using assms by (intro mult_mono) (auto simp: a_def b_def)
  ultimately show ?thesis
    using assms unfolding pq a_def b_def by linarith
qed

lemma rounds_rel:
  assumes "rounds r v" "v \<noteq> 0"
  shows "\<bar>r / v - 1\<bar> \<le> 1 / 2 ^ 53"
proof -
  have "r / v - 1 = (r - v) / v" using assms(2) by (simp add: field_simps)
  then have "\<bar>r / v - 1\<bar> = \<bar>r - v\<bar> / \<bar>v\<bar>" by simp
  also have "\<dots> \<le> (\<bar>v\<bar> / 2 ^ 53) / \<bar>v\<bar>"
    using assms by (intro divide_right_mono) (auto simp: rounds_def)
  also have "\<dots> = 1 / 2 ^ 53" using assms(2) by simp
  finally show ?thesis .
qed

lemma rounded_shrink_grow_bound:
  assumes s: "rounds s (7 / 10)" and g: "rounds g (10 / 7)"
    and y: "rounds y (x * s)" and z: "rounds z (y * g)"
  shows "\<bar>z - x\<bar> \<le> \<bar>x\<bar> / 10 ^ 9"
proof (cases "x = 0")
  case True
  with y have "y = 0" by (simp add: rounds_def)
  with z have "z = 0" by (simp add: rounds_def)
  with True show ?thesis by simp
next
  case False
  define u :: real where "u = 1 / 2 ^ 53"
  have u: "0 \<le> u" "u \<le> 1 / 10 ^ 15" by (simp_all add: u_def)
  have s1: "\<bar>s / (7 / 10) - 1\<bar> \<le> u" using rounds_rel [OF s] by (simp add: u_def)
  have g1: "\<bar>g / (10 / 7) - 1\<bar> \<le> u" using rounds_rel [OF g] by (simp add: u_def)
  have s0: "s \<noteq> 0" using s by (auto simp: rounds_def)
  have g0: "g \<noteq> 0" using g by (auto simp: rounds_def)
  have xs: "x * s \<noteq> 0" using False s0 by simp
  have y1: "\<bar>y / (x * s) - 1\<bar> \<le> u" using rounds_rel [OF y xs] by (simp add: u_def)
  have y0: "y \<noteq> 0"
  proof
    assume "y = 0"
    with y have "\<bar>x * s\<bar> \<le> \<bar>x * s\<bar> / 2 ^ 53" by (simp add: rounds_def)
    moreover have "0 < \<bar>x * s\<bar>" using xs by simp
    ultimately show False by simp
  qed
  have yg: "y * g \<noteq> 0" using y0 g0 by simp
  have z1: "\<bar>z / (y * g) - 1\<bar> \<le> u" using rounds_rel [OF z yg] by (simp add: u_def)
  have sg: "\<bar>(s / (7 / 10)) * (g / (10 / 7)) - 1\<bar> \<le> u + u + u * u"
    by (rule rel_prod [OF s1 g1])
  have yz: "\<bar>(y / (x * s)) * (z / (y * g)) - 1\<bar> \<le> u + u + u * u"
    by (rule rel_prod [OF y1 z1])
  have all: "\<bar>((s / (7 / 10)) * (g / (10 / 7))) * ((y / (x * s)) * (z / (y * g))) - 1\<bar>
      \<le> (u + u + u * u) + (u + u + u * u) + (u + u + u * u) * (u + u + u * u)"
    by (rule rel_prod [OF sg yz])
  have eq: "((s / (7 / 10)) * (g / (10 / 7))) * ((y / (x * s)) * (z / (y * g))) = z / x"
    using False s0 g0 y0 by simp
  have uu: "u * u \<le> u" using u by (simp add: mult_left_le u_def)
  have b3: "u + u + u * u \<le> 3 * u" using uu by simp
  have b3': "0 \<le> u + u + u * u" using u by simp
  have "(u + u + u * u) * (u + u + u * u) \<le> (3 * u) * (3 * u)"
    using b3 b3' by (intro mult_mono) auto
  also have "\<dots> = 9 * (u * u)" by simp
  also have "\<dots> \<le> 9 * u" using uu by simp
  finally have sq: "(u + u + u * u) * (u + u + u * u) \<le> 9 * u" .
  have "\<bar>z / x - 1\<bar> \<le> 15 * u" using all eq b3 sq by linarith
  also have "\<dots> \<le> 1 / 10 ^ 9" using u by simp
  finally have r: "\<bar>z / x - 1\<bar> \<le> 1 / 10 ^ 9" .
  have "z - x = (z / x - 1) * x" using False by (simp add: field_simps)
  then have "\<bar>z - x\<bar> = \<bar>z / x - 1\<bar> * \<bar>x\<bar>" by (simp add: abs_mult)
  also have "\<dots> \<le> (1 / 10 ^ 9) * \<bar>x\<bar>" using r by (intro mult_right_mono) auto
  finally show ?thesis by simp
qed


text \<open>So a dimension in the normal range comes back within the tolerance.\<close>

lemma fmul_shrink_grow_finite:
  assumes lo: "2 powi (- 1021) \<le> \<bar>a\<bar>" and hi: "\<bar>a\<bar> \<le> 2 powi 1023"
  shows "\<exists>z. fmul (fmul (Fin a) SHRINK_FACTOR) GROW_FACTOR = Fin z \<and> \<bar>z - a\<bar> \<le> \<bar>a\<bar> / 10 ^ 9"
proof -
  obtain s where s: "SHRINK_FACTOR = Fin s" "rounds s (7 / 10)"
    using SHRINK_FACTOR_rounds by blast
  obtain g where g: "GROW_FACTOR = Fin g" "rounds g (10 / 7)"
    using GROW_FACTOR_rounds by blast
  have "\<bar>s - 7 / 10\<bar> \<le> 1 / 100"
    using s(2) unfolding rounds_def by simp
  then have sb: "69 / 100 \<le> s" "s \<le> 71 / 100" by linarith+
  have "\<bar>g - 10 / 7\<bar> \<le> 1 / 1000"
    using g(2) unfolding rounds_def by simp
  then have gb: "142 / 100 \<le> g" "g \<le> 143 / 100" by linarith+
  define P :: real where "P = 2 powi (- 1022)"
  define Q :: real where "Q = 2 powi 1023"
  have P0: "0 < P" by (simp add: P_def)
  have P2: "(2::real) powi (- 1021) = P * 2"
    unfolding P_def using power_int_add_1 [of "2::real" "- 1022"] by simp
  have A: "P * 2 \<le> \<bar>a\<bar>" "\<bar>a\<bar> \<le> Q"
    using lo hi unfolding P2 Q_def [symmetric] .
  have as: "\<bar>a * s\<bar> = \<bar>a\<bar> * s" using sb by (simp add: abs_mult)
  have as_lo: "69 / 100 * \<bar>a\<bar> \<le> \<bar>a * s\<bar>"
    unfolding as using mult_left_mono [OF sb(1) abs_ge_zero [of a]] by linarith
  have as_hi: "\<bar>a * s\<bar> \<le> 71 / 100 * \<bar>a\<bar>"
    unfolding as using mult_left_mono [OF sb(2) abs_ge_zero [of a]] by linarith
  have r1: "2 powi (- 1022) \<le> \<bar>a * s\<bar>" "\<bar>a * s\<bar> \<le> 3 / 2 * 2 powi 1023"
    using as_lo as_hi A P0 unfolding Q_def [symmetric] P_def [symmetric] by linarith+
  obtain y where y: "round64 (a * s) = Fin y" "rounds y (a * s)"
    using round64_rounds [OF r1] by blast
  have yb: "\<bar>y\<bar> \<le> 72 / 100 * \<bar>a\<bar>" "68 / 100 * \<bar>a\<bar> \<le> \<bar>y\<bar>"
    using rounds_bounds [OF y(2)] as_lo as_hi by linarith+
  have yg: "\<bar>y * g\<bar> = \<bar>y\<bar> * g" using gb by (simp add: abs_mult)
  have yg_lo: "142 / 100 * \<bar>y\<bar> \<le> \<bar>y * g\<bar>"
    unfolding yg using mult_left_mono [OF gb(1) abs_ge_zero [of y]] by linarith
  have yg_hi: "\<bar>y * g\<bar> \<le> 143 / 100 * \<bar>y\<bar>"
    unfolding yg using mult_left_mono [OF gb(2) abs_ge_zero [of y]] by linarith
  have r2: "2 powi (- 1022) \<le> \<bar>y * g\<bar>" "\<bar>y * g\<bar> \<le> 3 / 2 * 2 powi 1023"
    using yg_lo yg_hi yb A P0 unfolding Q_def [symmetric] P_def [symmetric] by linarith+
  obtain z where z: "round64 (y * g) = Fin z" "rounds z (y * g)"
    using round64_rounds [OF r2] by blast
  have "fmul (fmul (Fin a) SHRINK_FACTOR) GROW_FACTOR = Fin z"
    by (simp add: s(1) g(1) y(1) z(1))
  moreover have "\<bar>z - a\<bar> \<le> \<bar>a\<bar> / 10 ^ 9"
    by (rule rounded_shrink_grow_bound [OF s(2) g(2) y(2) z(2)])
  ultimately show ?thesis by blast
qed

lemma fmul_shrink_grow:
  assumes "normal x"
  shows "within_tolerance (fmul (fmul x SHRINK_FACTOR) GROW_FACTOR) x"
proof (cases x)
  case (Fin a)
  show ?thesis
  proof (cases "a = 0")
    case True
    obtain s where s: "SHRINK_FACTOR = Fin s" using SHRINK_FACTOR_rounds by blast
    obtain g where g: "GROW_FACTOR = Fin g" using GROW_FACTOR_rounds by blast
    show ?thesis
      using Fin True by (simp add: s g round64_def within_tolerance_def)
  next
    case False
    with assms Fin have "2 powi (- 1021) \<le> \<bar>a\<bar>" "\<bar>a\<bar> \<le> 2 powi 1023" by simp_all
    from fmul_shrink_grow_finite [OF this] Fin show ?thesis
      by (auto simp: within_tolerance_def)
  qed
next
  case PInf
  obtain s where s: "SHRINK_FACTOR = Fin s" "rounds s (7 / 10)"
    using SHRINK_FACTOR_rounds by blast
  obtain g where g: "GROW_FACTOR = Fin g" "rounds g (10 / 7)"
    using GROW_FACTOR_rounds by blast
  have "\<bar>s - 7 / 10\<bar> \<le> 1 / 100" "\<bar>g - 10 / 7\<bar> \<le> 1 / 1000"
    using s(2) g(2) unfolding rounds_def by simp_all
  then have "0 < s" "0 < g" by linarith+
  then show ?thesis
    using PInf by (simp add: s(1) g(1) within_tolerance_def)
next
  case NInf
  obtain s where s: "SHRINK_FACTOR = Fin s" "rounds s (7 / 10)"
    using SHRINK_FACTOR_rounds by blast
  obtain g where g: "GROW_FACTOR = Fin g" "rounds g (10 / 7)"
    using GROW_FACTOR_rounds by blast
  have "\<bar>s - 7 / 10\<bar> \<le> 1 / 100" "\<bar>g - 10 / 7\<bar> \<le> 1 / 1000"
    using s(2) g(2) unfolding rounds_def by simp_all
  then have "0 < s" "0 < g" by linarith+
  then show ?thesis
    using NInf by (simp add: s(1) g(1) within_tolerance_def)
next
  case NaN
  with assms show ?thesis by simp
qed

subsection \<open>The loop of hpack\<close>

lemma add_total_ok:
  "order_ok ord \<Longrightarrow> length ts = 4 \<Longrightarrow>
   \<exists>ts'. add_total ts ord v = Inr ts' \<and> length ts' = 4"
  by (auto simp: add_total_def order_ok_def)

lemma Glue_hpackDims_ok:
  assumes "order_ok (glue_stretchOrder g)" "order_ok (glue_shrinkOrder g)"
    and "length (d_stretch a) = 4" "length (d_shrink a) = 4"
  shows "\<exists>st sh. Glue_hpackDims g a =
           Inr (a\<lparr>d_width := fadd (d_width a) (glue_width g), d_stretch := st, d_shrink := sh\<rparr>)
         \<and> length st = 4 \<and> length sh = 4"
proof -
  obtain st where st: "add_total (d_stretch a) (glue_stretchOrder g) (glue_stretch g) = Inr st"
    "length st = 4"
    using add_total_ok [OF assms(1) assms(3)] by blast
  obtain sh where sh: "add_total (d_shrink a) (glue_shrinkOrder g) (glue_shrink g) = Inr sh"
    "length sh = 4"
    using add_total_ok [OF assms(2) assms(4)] by blast
  have "Glue_hpackDims g a =
          Inr (a\<lparr>d_width := fadd (d_width a) (glue_width g), d_stretch := st, d_shrink := sh\<rparr>)"
    using st sh by (simp add: Glue_hpackDims_def Let_def)
  with st(2) sh(2) show ?thesis by blast
qed

lemma hpackDims_ok:
  assumes "n \<noteq> NilNode" "glue_ok n" "length (d_stretch a) = 4" "length (d_shrink a) = 4"
  shows "\<exists>a'. hpackDims n a = Inr a'
           \<and> d_width a' = fadd (d_width a) (hwidth n)
           \<and> d_height a' = hstep_height n (d_height a)
           \<and> d_depth a' = hstep_depth n (d_depth a)
           \<and> length (d_stretch a') = 4 \<and> length (d_shrink a') = 4"
proof (cases n)
  case (GlueNode g)
  with assms Glue_hpackDims_ok [of g a] show ?thesis
    by (auto simp: hstep_height_def hstep_depth_def hheight_def hdepth_def running_def)
qed (use assms in \<open>auto simp: hstep_height_def hstep_depth_def hheight_def hdepth_def running_def
      Box_hpackDims_def VBox_hpackDims_def HBox_hpackDims_def Char_hpackDims_def
      List_hpackDims_def Kern_hpackDims_def Let_def\<close>)

lemma hpack_loop_Cons:
  "n \<noteq> NilNode \<Longrightarrow>
   hpack_loop (n # ns) a = (case hpackDims n a of Inl e \<Rightarrow> Inl e | Inr a' \<Rightarrow> hpack_loop ns a')"
  by (cases n) auto

lemma hpack_loop_ok:
  "hpackable cs \<Longrightarrow> length (d_stretch a) = 4 \<Longrightarrow> length (d_shrink a) = 4 \<Longrightarrow>
   \<exists>a'. hpack_loop cs a = Inr a'
      \<and> d_width a' = foldl fadd (d_width a) (map hwidth cs)
      \<and> d_height a' = foldl (\<lambda>h n. hstep_height n h) (d_height a) cs
      \<and> d_depth a' = foldl (\<lambda>d n. hstep_depth n d) (d_depth a) cs"
proof (induction cs arbitrary: a)
  case Nil
  then show ?case by simp
next
  case (Cons n cs)
  from Cons.prems have n: "n \<noteq> NilNode" "glue_ok n" and cs: "hpackable cs"
    by (auto simp: hpackable_def)
  from hpackDims_ok [OF n Cons.prems(2,3)] obtain a1 where a1:
    "hpackDims n a = Inr a1" "d_width a1 = fadd (d_width a) (hwidth n)"
    "d_height a1 = hstep_height n (d_height a)" "d_depth a1 = hstep_depth n (d_depth a)"
    "length (d_stretch a1) = 4" "length (d_shrink a1) = 4"
    by blast
  from Cons.IH [OF cs a1(5,6)] obtain a' where a':
    "hpack_loop cs a1 = Inr a'"
    "d_width a' = foldl fadd (d_width a1) (map hwidth cs)"
    "d_height a' = foldl (\<lambda>h n. hstep_height n h) (d_height a1) cs"
    "d_depth a' = foldl (\<lambda>d n. hstep_depth n d) (d_depth a1) cs"
    by blast
  show ?case
    using n a1 a' by (simp add: hpack_loop_Cons)
qed

lemma foldl_hstep_height:
  "foldl (\<lambda>h n. hstep_height n h) h0 cs =
   foldl fmax h0 (List.map_filter hheight (entering_children cs))"
  by (induction cs arbitrary: h0)
     (auto simp: hstep_height_def entering_children_def split: option.splits)

lemma foldl_hstep_depth:
  "foldl (\<lambda>d n. hstep_depth n d) d0 cs =
   foldl fmax d0 (List.map_filter hdepth (entering_children cs))"
  by (induction cs arbitrary: d0)
     (auto simp: hstep_depth_def entering_children_def split: option.splits)

lemma dims0_lengths: "length (d_stretch dims0) = 4" "length (d_shrink dims0) = 4"
  by (simp_all add: dims0_def)

lemma box_glue_step [simp]: "box (fst (glue_step lst x a)) = box lst"
  by (simp add: glue_step_def set_glue_def setGlue_def)

lemma children_glue_step [simp]: "children (fst (glue_step lst x a)) = children lst"
  by (simp add: glue_step_def set_glue_def setGlue_def)

text \<open>On children that it can visit, the loop of \<^verbatim>\<open>hpack\<close> returns the natural width
  and the two maxima.\<close>

lemma hpack_result:
  assumes "hpackable cs"
  shows "\<exists>a. hpack_loop cs dims0 = Inr a
           \<and> d_width a = natural_width cs
           \<and> d_height a = max_height (entering_children cs)
           \<and> d_depth a = max_depth (entering_children cs)"
proof -
  from hpack_loop_ok [OF assms dims0_lengths] obtain a where a:
    "hpack_loop cs dims0 = Inr a"
    "d_width a = foldl fadd (d_width dims0) (map hwidth cs)"
    "d_height a = foldl (\<lambda>h n. hstep_height n h) (d_height dims0) cs"
    "d_depth a = foldl (\<lambda>d n. hstep_depth n d) (d_depth dims0) cs"
    by blast
  then show ?thesis
    by (simp add: foldl_hstep_height foldl_hstep_depth natural_width_def fsum_def
        max_height_def max_depth_def fmax_list_def dims0_def)
qed

lemma add_total_bad:
  "\<not> order_ok ord \<Longrightarrow> length ts = 4 \<Longrightarrow> add_total ts ord v = Inl IndexOutOfRange"
  by (auto simp: add_total_def order_ok_def)

lemma hpackDims_bad_glue:
  assumes "\<not> glue_ok n" "length (d_stretch a) = 4" "length (d_shrink a) = 4"
  shows "hpackDims n a = Inl IndexOutOfRange"
proof -
  from assms(1) obtain g where n: "n = GlueNode g" by (cases n) auto
  show ?thesis
  proof (cases "order_ok (glue_stretchOrder g)")
    case True
    with assms(1) n have b: "\<not> order_ok (glue_shrinkOrder g)" by simp
    from add_total_ok [OF True, of "d_stretch a" "glue_stretch g"] assms(2)
    obtain st where "add_total (d_stretch a) (glue_stretchOrder g) (glue_stretch g) = Inr st"
      by blast
    with add_total_bad [OF b assms(3)] n show ?thesis
      by (simp add: Glue_hpackDims_def Let_def)
  next
    case False
    from add_total_bad [OF False assms(2)] n show ?thesis
      by (simp add: Glue_hpackDims_def Let_def)
  qed
qed

lemma hpack_loop_panics:
  "\<not> hpackable cs \<Longrightarrow> length (d_stretch a) = 4 \<Longrightarrow> length (d_shrink a) = 4 \<Longrightarrow>
   hpack_loop cs a = Inl UnknownNodeType \<or> hpack_loop cs a = Inl IndexOutOfRange"
proof (induction cs arbitrary: a)
  case Nil
  then show ?case by (simp add: hpackable_def)
next
  case (Cons n cs)
  show ?case
  proof (cases "n = NilNode")
    case True
    then show ?thesis by simp
  next
    case nn: False
    show ?thesis
    proof (cases "glue_ok n")
      case False
      from hpackDims_bad_glue [OF False Cons.prems(2,3)] nn show ?thesis
        by (simp add: hpack_loop_Cons)
    next
      case True
      with nn Cons.prems(1) have cs: "\<not> hpackable cs" by (simp add: hpackable_def)
      from hpackDims_ok [OF nn True Cons.prems(2,3)] obtain a1 where a1:
        "hpackDims n a = Inr a1" "length (d_stretch a1) = 4" "length (d_shrink a1) = 4"
        by blast
      from Cons.IH [OF cs a1(2,3)] a1(1) nn show ?thesis
        by (simp add: hpack_loop_Cons)
    qed
  qed
qed

text \<open>The children that the loop of \<^verbatim>\<open>hpack\<close> can visit are exactly those on which it
  does not panic.\<close>

lemma hpack_loop_returns_iff: "(\<exists>a. hpack_loop cs dims0 = Inr a) = hpackable cs"
proof
  assume r: "\<exists>a. hpack_loop cs dims0 = Inr a"
  show "hpackable cs"
  proof (rule ccontr)
    assume "\<not> hpackable cs"
    from hpack_loop_panics [OF this dims0_lengths] r show False by auto
  qed
next
  assume "hpackable cs"
  with hpack_result show "\<exists>a. hpack_loop cs dims0 = Inr a" by blast
qed

subsection \<open>The glue-setting step\<close>

text \<open>
  Claim C1: for every list packed with a non-zero excess, the glue-setting step selects
  the highest order of infinity with a non-zero total, sets the glue ratio to the excess
  divided by that total, and packing never fails.

  The code does not: \<^verbatim>\<open>List.setGlue\<close> is \<^verbatim>\<open>panic("FIXME")\<close>. On the example of the
  specification (an \<^verbatim>\<open>HBox\<close> of width 10 and a glue that stretches by 5 at order 1, packed
  to the width 20) the excess is 10, for which order 1 and the ratio 2 are claimed;
  \<^verbatim>\<open>hpack\<close> panics and leaves the glue setting of the list as it was. \<^verbatim>\<open>vpack\<close> of
  an empty list to the height \<open>-5\<close>, a negative excess, panics in the same way.
\<close>

theorem nonzero_excess_panics:
  "hpack (Fin 20) False (ListOf [HBoxNode spec_hbox, GlueNode spec_glue]) =
     (TList \<lparr>box_size = 0, box_width = Fin 20, box_height = Fin 0, box_depth = Fin 0\<rparr>
        (Fin 0) [HBoxNode spec_hbox, GlueNode spec_glue] GlueSetting0,
      Some FIXME)
   \<and> vpack (Fin (- 5)) False PInf (ListOf []) =
     (TList \<lparr>box_size = 0, box_width = Fin 0, box_height = Fin (- 5), box_depth = Fin 0\<rparr>
        (Fin 0) [] GlueSetting0,
      Some FIXME)"
  by (simp add: hpack_def vpack_def ListOf_def spec_hbox_def spec_glue_def newGlue_def dims0_def
      HBox_hpackDims_def Glue_hpackDims_def add_total_def glue_step_def setGlue_def
      set_box_def set_glue_def Box0_def fsub_def Let_def numeral_eq_Suc)

subsection \<open>The width of a packed horizontal list\<close>

text \<open>\<^verbatim>\<open>hpack\<close> assigns the box width before the glue-setting step: \<open>width\<close>, or \<open>width\<close>
  plus the natural width of the children in additional mode. It then returns exactly
  when the excess is zero; on every other excess it panics in \<^verbatim>\<open>setGlue\<close>.\<close>

lemma hpack_box_width:
  assumes "hpackable cs"
  shows "box_width (box (fst (hpack width additional (TList b s cs g)))) =
           (if additional then fadd width (natural_width cs) else width)"
proof -
  from hpack_result [OF assms] obtain a where
    "hpack_loop cs dims0 = Inr a" "d_width a = natural_width cs"
    by blast
  then show ?thesis
    by (simp add: hpack_def Let_def set_box_def)
qed


text \<open>
  Claim C2: \<^verbatim>\<open>hpack(width, additional)\<close> sets the box width of the list to \<open>width\<close> when
  \<open>additional\<close> is false, and to \<open>width\<close> plus the accumulated natural width of the
  children when it is true; so for a list whose children have no stretch and no
  shrink \<^verbatim>\<open>hpack(targetWidth, false)\<close> yields a box of the width \<open>targetWidth\<close> whatever
  the children are.

  The code yields no box there: when \<open>targetWidth\<close> is not the natural width of the
  children, the excess is not zero and \<^verbatim>\<open>hpack\<close> panics in \<^verbatim>\<open>List.setGlue\<close>, the
  \<^verbatim>\<open>panic("FIXME")\<close> of claim C1. An \<^verbatim>\<open>HBox\<close> of width 10 and a character of width 2, with
  no glue at all, have the natural width 12: \<^verbatim>\<open>hpack(20, false)\<close> assigns the box width 20
  and panics, so that the caller gets no list.
\<close>

theorem hpack_to_width_panics:
  "hpack (Fin 20) False (ListOf [HBoxNode spec_hbox, CharNode spec_char]) =
     (TList \<lparr>box_size = 0, box_width = Fin 20, box_height = Fin 3, box_depth = Fin 1\<rparr>
        (Fin 0) [HBoxNode spec_hbox, CharNode spec_char] GlueSetting0,
      Some FIXME)
   \<and> returned (hpack (Fin 20) False (ListOf [HBoxNode spec_hbox, CharNode spec_char])) =
       Inl FIXME"
  by (simp add: hpack_def ListOf_def spec_hbox_def spec_char_def dims0_def returned_def
      HBox_hpackDims_def Char_hpackDims_def glue_step_def setGlue_def
      set_box_def set_glue_def Box0_def fsub_def fmax_def Let_def)

subsection \<open>The height and the depth of a packed horizontal list\<close>




text \<open>Outside of the data model: \<^verbatim>\<open>Char.hpackDims\<close> has no test for infinity, unlike
  \<^verbatim>\<open>Box\<close>, \<^verbatim>\<open>VBox\<close> and \<^verbatim>\<open>List\<close>, so a character of infinite height would enter the
  maximum. For all children that the loop can visit the maxima are those over
  \<open>entering_children\<close>.\<close>

lemma hpack_dims_entering:
  assumes "hpackable cs"
  shows "box_height (box (fst (hpack width additional (TList b s cs g)))) =
           max_height (entering_children cs)
       \<and> box_depth (box (fst (hpack width additional (TList b s cs g)))) =
           max_depth (entering_children cs)"
proof -
  from hpack_result [OF assms] obtain a where
    "hpack_loop cs dims0 = Inr a"
    "d_height a = max_height (entering_children cs)"
    "d_depth a = max_depth (entering_children cs)"
    by blast
  then show ?thesis
    by (simp add: hpack_def Let_def set_box_def)
qed

lemma infinite_char_enters_maxima:
  "running (CharNode inf_char)
   \<and> hpack (Fin 0) True (ListOf [BoxNode level0_box, CharNode inf_char]) =
       (TList \<lparr>box_size = 0, box_width = Fin 12, box_height = PInf, box_depth = Fin 10\<rparr>
          (Fin 0) [BoxNode level0_box, CharNode inf_char] GlueSetting0, None)
   \<and> max_height (finite_children [BoxNode level0_box, CharNode inf_char]) = Fin 10"
  by (simp add: running_def inf_char_def spec_char_def level0_box_def hpack_def ListOf_def
      dims0_def Box_hpackDims_def Char_hpackDims_def glue_step_def set_box_def set_glue_def
      Box0_def GlueSetting0_def fsub_def fmax_def Let_def max_height_def finite_children_def
      fmax_list_def hheight_def)

subsection \<open>The dimensions of a packed vertical list\<close>

lemma Glue_vpackDims_ok:
  assumes "order_ok (glue_stretchOrder g)" "order_ok (glue_shrinkOrder g)"
    and "length (d_stretch a) = 4" "length (d_shrink a) = 4"
  shows "\<exists>st sh. Glue_vpackDims g a =
           Inr (a\<lparr>d_height := fadd (fadd (d_height a) (d_depth a)) (glue_width g),
                  d_depth := Fin 0, d_stretch := st, d_shrink := sh\<rparr>)
         \<and> length st = 4 \<and> length sh = 4"
proof -
  obtain st where st: "add_total (d_stretch a) (glue_stretchOrder g) (glue_stretch g) = Inr st"
    "length st = 4"
    using add_total_ok [OF assms(1) assms(3)] by blast
  obtain sh where sh: "add_total (d_shrink a) (glue_shrinkOrder g) (glue_shrink g) = Inr sh"
    "length sh = 4"
    using add_total_ok [OF assms(2) assms(4)] by blast
  have "Glue_vpackDims g a =
          Inr (a\<lparr>d_height := fadd (fadd (d_height a) (d_depth a)) (glue_width g),
                 d_depth := Fin 0, d_stretch := st, d_shrink := sh\<rparr>)"
    using st sh by (simp add: Glue_vpackDims_def Let_def)
  with st(2) sh(2) show ?thesis by blast
qed

lemma vpackDims_ok:
  assumes "n \<noteq> NilNode" "glue_ok n" "\<not> is_char n"
    and "length (d_stretch a) = 4" "length (d_shrink a) = 4"
  shows "\<exists>a'. vpackDims n a = Inr a'
           \<and> d_height a' = fadd (d_height a) (fadd (d_depth a) (vheight n))
           \<and> d_depth a' = vdepth n
           \<and> d_width a' = vstep_width n (d_width a)
           \<and> length (d_stretch a') = 4 \<and> length (d_shrink a') = 4"
proof (cases n)
  case (GlueNode g)
  with assms Glue_vpackDims_ok [of g a] show ?thesis
    by (auto simp: vstep_width_def fadd_assoc)
qed (use assms in \<open>auto simp: vstep_width_def Box_vpackDims_def VBox_vpackDims_def
      HBox_vpackDims_def List_vpackDims_def Kern_vpackDims_def Let_def\<close>)

lemma vpack_loop_Cons:
  "n \<noteq> NilNode \<Longrightarrow>
   vpack_loop (n # ns) a = (case vpackDims n a of Inl e \<Rightarrow> Inl e | Inr a' \<Rightarrow> vpack_loop ns a')"
  by (cases n) auto

lemma vpack_loop_ok:
  "vpackable cs \<Longrightarrow> length (d_stretch a) = 4 \<Longrightarrow> length (d_shrink a) = 4 \<Longrightarrow>
   \<exists>a'. vpack_loop cs a = Inr a'
      \<and> d_height a' = foldl fadd (d_height a)
          (map2 (\<lambda>p c. fadd p (vheight c)) (butlast (d_depth a # map vdepth cs)) cs)
      \<and> d_depth a' = last (d_depth a # map vdepth cs)
      \<and> d_width a' = foldl (\<lambda>w n. vstep_width n w) (d_width a) cs"
proof (induction cs arbitrary: a)
  case Nil
  then show ?case by simp
next
  case (Cons n cs)
  from Cons.prems have n: "n \<noteq> NilNode" "glue_ok n" "\<not> is_char n" and cs: "vpackable cs"
    by (auto simp: vpackable_def)
  from vpackDims_ok [OF n Cons.prems(2,3)] obtain a1 where a1:
    "vpackDims n a = Inr a1"
    "d_height a1 = fadd (d_height a) (fadd (d_depth a) (vheight n))"
    "d_depth a1 = vdepth n" "d_width a1 = vstep_width n (d_width a)"
    "length (d_stretch a1) = 4" "length (d_shrink a1) = 4"
    by blast
  from Cons.IH [OF cs a1(5,6)] obtain a' where a':
    "vpack_loop cs a1 = Inr a'"
    "d_height a' = foldl fadd (d_height a1)
       (map2 (\<lambda>p c. fadd p (vheight c)) (butlast (d_depth a1 # map vdepth cs)) cs)"
    "d_depth a' = last (d_depth a1 # map vdepth cs)"
    "d_width a' = foldl (\<lambda>w n. vstep_width n w) (d_width a1) cs"
    by blast
  show ?case
    using n a1 a' by (simp add: vpack_loop_Cons)
qed

lemma foldl_vstep_width:
  "foldl (\<lambda>w n. vstep_width n w) w0 cs =
   foldl fmax w0 (filter (\<lambda>w. \<not> IsInf w) (List.map_filter vwidth cs))"
  by (induction cs arbitrary: w0) (auto simp: vstep_width_def split: option.splits)

lemma vpack_result:
  assumes "vpackable cs"
  shows "\<exists>a. vpack_loop cs dims0 = Inr a
           \<and> d_width a = max_finite_width cs
           \<and> d_height a = height_total cs
           \<and> d_depth a = carried_depth cs"
proof -
  from vpack_loop_ok [OF assms dims0_lengths] obtain a where a:
    "vpack_loop cs dims0 = Inr a"
    "d_height a = foldl fadd (d_height dims0)
       (map2 (\<lambda>p c. fadd p (vheight c)) (butlast (d_depth dims0 # map vdepth cs)) cs)"
    "d_depth a = last (d_depth dims0 # map vdepth cs)"
    "d_width a = foldl (\<lambda>w n. vstep_width n w) (d_width dims0) cs"
    by blast
  then show ?thesis
    by (simp add: foldl_vstep_width max_finite_width_def fmax_list_def height_total_def
        fsum_def previous_depths_def carried_depth_def dims0_def)
qed




subsection \<open>The excess and the glue state\<close>


lemma neutral_neutral_glue [simp]: "neutral (neutral_glue g)"
  by (simp add: neutral_def neutral_glue_def)





lemma glue_step_nonzero:
  "\<not> feq x (Fin 0) \<Longrightarrow> glue_step lst x a = (lst, Some FIXME)"
  by (simp add: glue_step_def setGlue_def)

text \<open>Every excess that is not zero ends in the panic of \<^verbatim>\<open>setGlue\<close>, with the glue
  setting of the list as it was.\<close>

lemma hpack_nonzero_excess:
  assumes "hpackable cs" "\<not> feq (hpack_excess width additional cs) (Fin 0)"
  shows "snd (hpack width additional (TList b s cs g)) = Some FIXME
       \<and> glue (fst (hpack width additional (TList b s cs g))) = g"
proof -
  from hpack_result [OF assms(1)] obtain a where
    "hpack_loop cs dims0 = Inr a" "d_width a = natural_width cs"
    by blast
  with assms(2) show ?thesis
    by (simp add: hpack_def Let_def hpack_excess_def glue_step_nonzero set_box_def)
qed

lemma vpack_nonzero_excess:
  assumes "vpackable cs" "\<not> feq (vpack_excess height additional l cs) (Fin 0)"
  shows "snd (vpack height additional l (TList b s cs g)) = Some FIXME
       \<and> glue (fst (vpack height additional l (TList b s cs g))) = g"
proof -
  from vpack_result [OF assms(1)] obtain a where a:
    "vpack_loop cs dims0 = Inr a" "d_height a = height_total cs" "d_depth a = carried_depth cs"
    by blast
  define x1 where "x1 = vpack_natural cs l"
  define height1 where "height1 = (if additional then fadd height x1 else height)"
  have x1: "(if fgt (d_depth a) l then fadd (d_height a) (fsub (d_depth a) l) else d_height a) = x1"
    using a by (simp add: x1_def vpack_natural_def)
  have z: "\<not> feq (fsub height1 x1) (Fin 0)"
    using assms(2) unfolding vpack_excess_def x1_def height1_def .
  have "vpack height additional l (TList b s cs g) =
          glue_step (TList (b\<lparr>box_width := d_width a,
                               box_depth := (if fgt (d_depth a) l then l else d_depth a),
                               box_height := height1\<rparr>) s cs g)
            (fsub height1 x1) a"
    using a(1) x1 by (simp add: vpack_def Let_def set_box_def height1_def)
  then show ?thesis
    using z by (simp add: glue_step_nonzero)
qed




subsection \<open>Characters in a vertical list\<close>

lemma vpackDims_panics_iff:
  assumes "n \<noteq> NilNode" "glue_ok n" "length (d_stretch a) = 4" "length (d_shrink a) = 4"
  shows "(\<exists>e. vpackDims n a = Inl e) = is_char n"
proof (cases "is_char n")
  case True
  then show ?thesis by (cases n) auto
next
  case False
  with vpackDims_ok [OF assms(1,2) False assms(3,4)] show ?thesis by auto
qed





subsection \<open>The kerning pass\<close>




lemma spliced_Nil [simp]: "spliced d [] = []"
  by (simp add: spliced_def)









text \<open>With the methods of this package the pass changes nothing: \<^verbatim>\<open>Kerning\<close> is 0 for
  every node but \<^verbatim>\<open>Char\<close> and \<^verbatim>\<open>Accent\<close>, for which it panics.\<close>

lemma kern_loop_Kerning:
  "list_all (\<lambda>n. n \<noteq> NilNode \<and> \<not> is_char n) (butlast cs) \<Longrightarrow> kern_loop Kerning cs = Inr cs"
proof (induction Kerning cs rule: kern_loop.induct)
  case (3 elem nxt rest)
  from "3.prems" have e: "elem \<noteq> NilNode" "\<not> is_char elem"
    and r: "list_all (\<lambda>n. n \<noteq> NilNode \<and> \<not> is_char n) (butlast (nxt # rest))"
    by auto
  from e have k: "Kerning elem nxt = Inr (Fin 0)" by (cases elem) auto
  from "3.hyps" [OF k r] k show ?case by (simp add: fne_def)
qed simp_all

subsection \<open>Shrink and Grow\<close>

text \<open>\<^verbatim>\<open>Shrink\<close> scales exactly at the size counters that are at most 6 and are not the
  least integer, whose decrement wraps around.\<close>

lemma sint_dec:
  fixes sz :: "64 word"
  assumes "sint sz \<noteq> - (2 ^ 63)"
  shows "sint (sz - 1) = sint sz - 1"
proof -
  have lo: "- (2 ^ 63) \<le> sint sz" and hi: "sint sz < 2 ^ 63"
    using sint_ge [of sz] sint_lt [of sz] by simp_all
  have "sint (sz - 1) = signed_take_bit 63 (sint sz - 1)"
    by (simp add: sint_word_ariths)
  also have "\<dots> = sint sz - 1"
    using lo hi assms by (intro signed_take_bit_int_eq_self) auto
  finally show ?thesis .
qed

lemma scales_iff: "scales sz = (sint sz \<le> 6 \<and> sint sz \<noteq> - (2 ^ 63))"
proof (cases "sint sz = - (2 ^ 63)")
  case True
  have c: "signed_take_bit 63 (- (2 ^ 63) - 1 :: int) = 2 ^ 63 - 1"
    by code_simp
  have "sint (sz - 1) = signed_take_bit 63 (sint sz - 1)"
    by (simp add: sint_word_ariths)
  with True c have "sint (sz - 1) = 2 ^ 63 - 1" by simp
  then show ?thesis
    using True by (simp add: scales_def NUM_SIZE_LEVELS_def word_sless_alt)
next
  case False
  then show ?thesis
    by (auto simp: scales_def NUM_SIZE_LEVELS_def word_sless_alt sint_dec)
qed

lemma Box_Shrink_cases:
  "Box_Shrink b =
     (if scales (box_size b)
      then \<lparr>box_size = box_size b - 1, box_width = fmul (box_width b) SHRINK_FACTOR,
            box_height = fmul (box_height b) SHRINK_FACTOR,
            box_depth = fmul (box_depth b) SHRINK_FACTOR\<rparr>
      else b\<lparr>box_size := box_size b - 1\<rparr>)"
  by (simp add: Box_Shrink_def Let_def scales_def word_sless_alt word_sle_eq not_le)

lemma scales_not_le: "scales sz \<Longrightarrow> \<not> NUM_SIZE_LEVELS \<le>s sz - 1"
  by (simp add: scales_def word_sless_alt word_sle_eq)

lemma Box_Shrink_Grow:
  "scales (box_size b) \<Longrightarrow>
   Box_Grow (Box_Shrink b) =
     \<lparr>box_size = box_size b,
      box_width = fmul (fmul (box_width b) SHRINK_FACTOR) GROW_FACTOR,
      box_height = fmul (fmul (box_height b) SHRINK_FACTOR) GROW_FACTOR,
      box_depth = fmul (fmul (box_depth b) SHRINK_FACTOR) GROW_FACTOR\<rparr>"
  by (simp add: Box_Shrink_def Box_Grow_def Let_def scales_not_le)

lemma VBox_Shrink_Grow:
  "scales (vbox_size b) \<Longrightarrow>
   VBox_Grow (VBox_Shrink b) =
     \<lparr>vbox_size = vbox_size b,
      vbox_height = fmul (fmul (vbox_height b) SHRINK_FACTOR) GROW_FACTOR,
      vbox_depth = fmul (fmul (vbox_depth b) SHRINK_FACTOR) GROW_FACTOR\<rparr>"
  by (simp add: VBox_Shrink_def VBox_Grow_def Let_def scales_not_le)

lemma HBox_Shrink_Grow:
  "scales (hbox_size b) \<Longrightarrow>
   HBox_Grow (HBox_Shrink b) =
     \<lparr>hbox_size = hbox_size b,
      hbox_width = fmul (fmul (hbox_width b) SHRINK_FACTOR) GROW_FACTOR\<rparr>"
  by (simp add: HBox_Shrink_def HBox_Grow_def Let_def scales_not_le)

lemma Char_Shrink_Grow:
  "scales (char_size b) \<Longrightarrow>
   char_width (Char_Grow (Char_Shrink b)) = fmul (fmul (char_width b) SHRINK_FACTOR) GROW_FACTOR
   \<and> char_height (Char_Grow (Char_Shrink b)) = fmul (fmul (char_height b) SHRINK_FACTOR) GROW_FACTOR
   \<and> char_depth (Char_Grow (Char_Shrink b)) = fmul (fmul (char_depth b) SHRINK_FACTOR) GROW_FACTOR"
  by (simp add: Char_Shrink_def Char_Grow_def Let_def scales_not_le)

lemma Glue_Shrink_Grow:
  "scales (glue_size b) \<Longrightarrow>
   glue_width (Glue_Grow (Glue_Shrink b)) = fmul (fmul (glue_width b) SHRINK_FACTOR) GROW_FACTOR"
  by (simp add: Glue_Shrink_def Glue_Grow_def Let_def scales_not_le)

lemma Kern_Shrink_Grow:
  "scales (kern_size b) \<Longrightarrow>
   kern_width (Kern_Grow (Kern_Shrink b)) = fmul (fmul (kern_width b) SHRINK_FACTOR) GROW_FACTOR"
  by (simp add: Kern_Shrink_def Kern_Grow_def Let_def scales_not_le)

lemma box_size_Box_Shrink [simp]: "box_size (Box_Shrink b) = box_size b - 1"
  by (simp add: Box_Shrink_def Let_def)

lemma Box_Shrink_7: "(Box_Shrink ^^ 7) b =
    Box_Shrink (Box_Shrink (Box_Shrink (Box_Shrink (Box_Shrink (Box_Shrink (Box_Shrink b))))))"
  by (simp add: numeral_eq_Suc)

text \<open>\<^verbatim>\<open>Shrink\<close> and then \<^verbatim>\<open>Grow\<close> on a tree where \<^verbatim>\<open>Shrink\<close> scales everywhere: both
  return, and every dimension of the tree comes back within the tolerance.\<close>

lemma Shrink_then_Grow:
  "restorable n \<longrightarrow> list_all normal (dims_of n) \<longrightarrow>
     (\<exists>n1 n2. Shrink n = Inr n1 \<and> Grow n1 = Inr n2
        \<and> list_all2 within_tolerance (dims_of n2) (dims_of n))"
  "restorable_list l \<longrightarrow> list_all normal (dims_of_list l) \<longrightarrow>
     (\<exists>l1 l2. List_Shrink l = Inr l1 \<and> List_Grow l1 = Inr l2
        \<and> list_all2 within_tolerance (dims_of_list l2) (dims_of_list l))"
  "list_all restorable cs \<longrightarrow> list_all normal (concat (map dims_of cs)) \<longrightarrow>
     (\<exists>cs1 cs2. Shrink_all cs = Inr cs1 \<and> Grow_all cs1 = Inr cs2
        \<and> list_all2 within_tolerance (concat (map dims_of cs2)) (concat (map dims_of cs)))"
proof (induction n and l and cs rule: Shrink_List_Shrink_Shrink_all.induct)
  case (16 b s cs g)
  show ?case
  proof (intro impI)
    assume r: "restorable_list (TList b s cs g)"
      and n: "list_all normal (dims_of_list (TList b s cs g))"
    from r have sc: "scales (box_size b)" and cs: "list_all restorable cs" by auto
    from n have nb: "normal (box_width b)" "normal (box_height b)" "normal (box_depth b)"
        "normal s" "normal (glue_set g)"
      and nc: "list_all normal (concat (map dims_of cs))" by auto
    from 16 cs nc obtain cs1 cs2 where cs': "Shrink_all cs = Inr cs1" "Grow_all cs1 = Inr cs2"
      "list_all2 within_tolerance (concat (map dims_of cs2)) (concat (map dims_of cs))" by blast
    from sc have lt: "box_size b - 1 <s NUM_SIZE_LEVELS" by (simp add: scales_def)
    show "\<exists>l1 l2. List_Shrink (TList b s cs g) = Inr l1 \<and> List_Grow l1 = Inr l2
        \<and> list_all2 within_tolerance (dims_of_list l2) (dims_of_list (TList b s cs g))"
      using cs' lt sc nb
      by (simp add: Let_def Box_Shrink_Grow fmul_shrink_grow)
  qed
next
  case (18 c cs)
  show ?case
  proof (intro impI)
    assume r: "list_all restorable (c # cs)"
      and n: "list_all normal (concat (map dims_of (c # cs)))"
    from r n 18(1) obtain c1 c2 where c: "Shrink c = Inr c1" "Grow c1 = Inr c2"
      "list_all2 within_tolerance (dims_of c2) (dims_of c)" by auto
    from r n 18(2) [OF c(1)] obtain cs1 cs2 where cs: "Shrink_all cs = Inr cs1"
      "Grow_all cs1 = Inr cs2"
      "list_all2 within_tolerance (concat (map dims_of cs2)) (concat (map dims_of cs))" by auto
    show "\<exists>cs1 cs2. Shrink_all (c # cs) = Inr cs1 \<and> Grow_all cs1 = Inr cs2
        \<and> list_all2 within_tolerance (concat (map dims_of cs2)) (concat (map dims_of (c # cs)))"
      using c cs by (simp add: list_all2_appendI)
  qed
qed (auto simp: Box_Shrink_Grow VBox_Shrink_Grow HBox_Shrink_Grow Char_Shrink_Grow
      Glue_Shrink_Grow Kern_Shrink_Grow fmul_shrink_grow)

text \<open>
  Claim C3: for every box-model node and every starting state, \<^verbatim>\<open>Shrink()\<close> and then
  \<^verbatim>\<open>Grow()\<close> restore the width, the height and the depth of the node (and the shift and
  the glue set amount of a list) to within a relative tolerance of \<open>10\<^sup>-\<^sup>9\<close>.

  As stated the claim fails at two kinds of starting states. Where \<^verbatim>\<open>Shrink\<close> does not
  scale, \<^verbatim>\<open>Grow\<close> still does: on a box of size 7 and width 1, \<^verbatim>\<open>Shrink\<close> and then \<^verbatim>\<open>Grow\<close>
  leave the width \<open>1.4285714285714286\<close>. And at the bottom of the binary64 range the
  rounding of the two products is coarser than the tolerance: on a box of size 0 whose
  width is twice the least positive number, \<^verbatim>\<open>Shrink\<close> scales and rounds the width to the
  least positive number, and \<^verbatim>\<open>Grow\<close> leaves it there, at half of what it was.
\<close>

theorem Shrink_Grow_not_restored:
  "Shrink_Grow (BoxNode level7_box) =
     Inr (BoxNode \<lparr>box_size = 7, box_width = Fin (6433713753386423 / 2 ^ 52),
                   box_height = Fin (6433713753386423 / 2 ^ 52),
                   box_depth = Fin (6433713753386423 / 2 ^ 52)\<rparr>)
   \<and> \<not> within_tolerance (Fin (6433713753386423 / 2 ^ 52)) (box_width level7_box)
   \<and> restorable (BoxNode tiny_box)
   \<and> Shrink_Grow (BoxNode tiny_box) =
     Inr (BoxNode \<lparr>box_size = 0, box_width = Fin (2 powi (- 1074)), box_height = Fin 0,
                   box_depth = Fin 0\<rparr>)
   \<and> \<not> within_tolerance (Fin (2 powi (- 1074))) (box_width tiny_box)"
proof -
  have a: "Shrink_Grow (BoxNode level7_box) =
     Inr (BoxNode \<lparr>box_size = 7, box_width = Fin (6433713753386423 / 2 ^ 52),
                   box_height = Fin (6433713753386423 / 2 ^ 52),
                   box_depth = Fin (6433713753386423 / 2 ^ 52)\<rparr>)"
    by (simp add: Shrink_Grow_def level7_box_def Box_Shrink_def Box_Grow_def Let_def
        NUM_SIZE_LEVELS_def word_sle_eq grow_1 [simplified])
  have b: "\<not> within_tolerance (Fin (6433713753386423 / 2 ^ 52)) (box_width level7_box)"
    by (simp add: level7_box_def within_tolerance_def)
  have c: "restorable (BoxNode tiny_box)"
    by (simp add: tiny_box_def scales_def NUM_SIZE_LEVELS_def word_sless_alt)
  have d: "Shrink_Grow (BoxNode tiny_box) =
     Inr (BoxNode \<lparr>box_size = 0, box_width = Fin (2 powi (- 1074)), box_height = Fin 0,
                   box_depth = Fin 0\<rparr>)"
    unfolding Shrink_Grow_def tiny_box_def
    by (simp add: Box_Shrink_def Box_Grow_def Let_def NUM_SIZE_LEVELS_def word_sle_eq
        tiny_shrink [simplified] tiny_grow [simplified] fmul_0)
  have e: "\<not> within_tolerance (Fin (2 powi (- 1074))) (box_width tiny_box)"
    using tiny_not_within by (simp only: tiny_box_def Box.simps simp_thms)
  from a b c d e show ?thesis by (intro conjI)
qed

text \<open>
  Claim C3, amended: for every box-model node on which \<^verbatim>\<open>Shrink()\<close> scales, the node and
  all its descendants (none of them is at a size where \<^verbatim>\<open>Shrink\<close> only decrements the
  counter), with no \<^verbatim>\<open>Accent\<close> and no nil child in the tree, and whose dimensions are each
  zero, infinite, or finite of a magnitude from \<open>2\<^sup>-\<^sup>1\<^sup>0\<^sup>2\<^sup>1\<close> to \<open>2\<^sup>1\<^sup>0\<^sup>2\<^sup>3\<close>, \<^verbatim>\<open>Shrink()\<close> and
  then \<^verbatim>\<open>Grow()\<close> return and restore the width, the height and the depth of the node
  (and the shift and the glue set amount of a list), and those of every descendant,
  to within a relative tolerance of \<open>10\<^sup>-\<^sup>9\<close>.
\<close>

theorem Shrink_Grow_restores:
  "restorable n \<Longrightarrow> list_all normal (dims_of n) \<Longrightarrow>
   \<exists>n'. Shrink_Grow n = Inr n' \<and> list_all2 within_tolerance (dims_of n') (dims_of n)"
  using Shrink_then_Grow(1) [of n] by (auto simp: Shrink_Grow_def)

theorem Shrink_Grow_restores_witness:
  "restorable sample_hlist \<and> list_all normal (dims_of sample_hlist)
   \<and> Shrink_Grow sample_hlist =
       Inr (HListNode (TList level6_box (Fin 2)
         [BoxNode level0_box, GlueNode spec_glue,
          CharNode (spec_char\<lparr>char_height := Fin (6755399441055743 / 2 ^ 51),
                              char_font_size := Fin (6755399441055743 / 2 ^ 49)\<rparr>),
          VRuleNode (level0_box\<lparr>box_height := PInf\<rparr>)]
         (GlueSetting0\<lparr>glue_set := Fin (6755399441055743 / 2 ^ 51)\<rparr>)))
   \<and> list_all2 within_tolerance
       (dims_of (HListNode (TList level6_box (Fin 2)
         [BoxNode level0_box, GlueNode spec_glue,
          CharNode (spec_char\<lparr>char_height := Fin (6755399441055743 / 2 ^ 51),
                              char_font_size := Fin (6755399441055743 / 2 ^ 49)\<rparr>),
          VRuleNode (level0_box\<lparr>box_height := PInf\<rparr>)]
         (GlueSetting0\<lparr>glue_set := Fin (6755399441055743 / 2 ^ 51)\<rparr>))))
       (dims_of sample_hlist)"
proof -
  have r: "restorable sample_hlist"
    by (simp add: sample_hlist_def scales_def NUM_SIZE_LEVELS_def level6_box_def level0_box_def
        spec_glue_def newGlue_def spec_char_def word_sless_alt)
  have n: "list_all normal (dims_of sample_hlist)"
    by (simp add: sample_hlist_def level6_box_def level0_box_def spec_glue_def newGlue_def
        spec_char_def GlueSetting0_def)
  have ev: "Shrink_Grow sample_hlist =
       Inr (HListNode (TList level6_box (Fin 2)
         [BoxNode level0_box, GlueNode spec_glue,
          CharNode (spec_char\<lparr>char_height := Fin (6755399441055743 / 2 ^ 51),
                              char_font_size := Fin (6755399441055743 / 2 ^ 49)\<rparr>),
          VRuleNode (level0_box\<lparr>box_height := PInf\<rparr>)]
         (GlueSetting0\<lparr>glue_set := Fin (6755399441055743 / 2 ^ 51)\<rparr>)))"
    by (simp add: Shrink_Grow_def sample_hlist_def level6_box_def level0_box_def spec_glue_def
        newGlue_def spec_char_def GlueSetting0_def Box_Shrink_def Box_Grow_def Char_Shrink_def
        Char_Grow_def Glue_Shrink_def Glue_Grow_def Let_def NUM_SIZE_LEVELS_def word_sle_eq
        word_sless_alt shrink_step1 [simplified] grow_back_10 [simplified] shrink_1 [simplified]
        grow_back_1 [simplified] shrink_2 [simplified] grow_back_2 [simplified]
        shrink_3 [simplified] grow_back_3 [simplified] shrink_12 [simplified]
        grow_back_12 [simplified] fmul_0 factor_signs)
  from Shrink_Grow_restores [OF r n] ev r n show ?thesis by auto
qed

text \<open>
  Claim C4: every \<^verbatim>\<open>Shrink()\<close> decreases the size counter by one and every \<^verbatim>\<open>Grow()\<close>
  increases it by one; once the size has reached \<^verbatim>\<open>NUM_SIZE_LEVELS\<close>, further \<^verbatim>\<open>Shrink()\<close>
  calls still decrement the counter but leave the dimensions unchanged; \<^verbatim>\<open>Grow()\<close> scales
  at every level.

  The code does not stop scaling there: \<^verbatim>\<open>Shrink\<close> decrements the counter and skips the
  scaling only while the decremented counter is at least 6. A box whose size has reached
  6 is scaled by the next \<^verbatim>\<open>Shrink\<close>, and from the size 0 that every constructor sets the
  seventh \<^verbatim>\<open>Shrink\<close> in a row still scales: the width 10 has become
  \<open>0.8235429999999997\<close>, the \<^verbatim>\<open>float64\<close> that seven rounded products by 0.7 give.
\<close>

theorem Shrink_scales_past_level6:
  "Shrink (BoxNode level6_box) =
     Inr (BoxNode \<lparr>box_size = 5, box_width = Fin 7, box_height = Fin 7, box_depth = Fin 7\<rparr>)
   \<and> (Box_Shrink ^^ 7) level0_box =
     \<lparr>box_size = - 7, box_width = Fin (3708907947923579 / 2 ^ 52),
      box_height = Fin (3708907947923579 / 2 ^ 52),
      box_depth = Fin (3708907947923579 / 2 ^ 52)\<rparr>"
  unfolding Box_Shrink_7
  by (simp add: level6_box_def level0_box_def Box_Shrink_def NUM_SIZE_LEVELS_def
      Let_def word_sle_eq shrink_step1 [simplified] shrink_step2 [simplified]
      shrink_step3 [simplified] shrink_step4 [simplified] shrink_step5 [simplified]
      shrink_step6 [simplified] shrink_step7 [simplified])

subsection \<open>NewGlue\<close>

text \<open>
  Claim C10: \<^verbatim>\<open>NewGlue(typ)\<close> succeeds exactly for the eight strings "fil", "fill",
  "filll", "neg_fil", "neg_fill", "neg_filll", "empty" and "ss", and panics for every
  other string; for "fil", "fill" and "filll" the glue has natural width 0, stretch 1
  at order 1, 2 and 3, and shrink 0.
\<close>

theorem NewGlue_spec_strings:
  "(case NewGlue typ of
      Inl e \<Rightarrow> e = UnknownGlueSpec typ \<and> typ \<notin> glue_specs
    | Inr g \<Rightarrow> typ \<in> glue_specs)
   \<and> NewGlue ''fil'' = Inr \<lparr>glue_size = 0, glue_width = Fin 0, glue_stretch = Fin 1,
        glue_stretchOrder = 1, glue_shrink = Fin 0, glue_shrinkOrder = 0\<rparr>
   \<and> NewGlue ''fill'' = Inr \<lparr>glue_size = 0, glue_width = Fin 0, glue_stretch = Fin 1,
        glue_stretchOrder = 2, glue_shrink = Fin 0, glue_shrinkOrder = 0\<rparr>
   \<and> NewGlue ''filll'' = Inr \<lparr>glue_size = 0, glue_width = Fin 0, glue_stretch = Fin 1,
        glue_stretchOrder = 3, glue_shrink = Fin 0, glue_shrinkOrder = 0\<rparr>"
  by (simp add: NewGlue_def glue_specs_def newGlue_def)

end
